theory Spec2Isabelle
  imports Main
begin

unbundle bit_operations_syntax

section \<open>The IP address manager of \<open>api/network/app/utils/ipam.py\<close>\<close>

text \<open>
  The five static methods of \<open>IPAddressManager\<close> are thin wrappers around Python's
  standard \<open>ipaddress\<close> module, so the embedding has two layers: the part of
  \<open>ipaddress.py\<close> (CPython 3.11) that the wrappers reach, translated function by
  function under the library's own names, and the wrappers themselves.

  Python integers are unbounded: addresses are \<open>nat\<close>, quantities that the source
  compares with zero or that can go negative are \<open>int\<close>. Strings are \<open>string\<close>.
  An exception is a value \<open>Inl e\<close> of the sum type \<open>error + 'a\<close>.
\<close>

subsection \<open>Exceptions\<close>

text \<open>
  \<open>AddressValueError\<close> and \<open>NetmaskValueError\<close> are subclasses of \<open>ValueError\<close>.
  The text of a message is not modelled; a plain \<open>ValueError\<close> carries a value of
  type \<open>message\<close> that tells which \<open>raise\<close> statement produced it.
\<close>

datatype message =
    NotAnAddress              \<comment> \<open>\<open>... does not appear to be an IPv4 or IPv6 address\<close>\<close>
  | NotANetwork               \<comment> \<open>\<open>... does not appear to be an IPv4 or IPv6 network\<close>\<close>
  | HostBitsSet               \<comment> \<open>\<open>... has host bits set\<close>\<close>
  | MixesZeroesAndOnes        \<comment> \<open>\<open>Netmask pattern ... mixes zeroes & ones\<close>\<close>
  | AddressTooLarge           \<comment> \<open>\<open>IPv6 address is too large\<close>\<close>
  | InvalidAddress            \<comment> \<open>the text of an \<open>AddressValueError\<close>\<close>
  | InvalidNetmask            \<comment> \<open>the text of a \<open>NetmaskValueError\<close>\<close>
  | NewPrefixMustBeLonger     \<comment> \<open>\<open>new prefix must be longer\<close>\<close>
  | PrefixLengthDiffNegative  \<comment> \<open>\<open>prefix length diff must be > 0\<close>\<close>
  | PrefixLengthDiffInvalid int  \<comment> \<open>\<open>prefix length diff %d is invalid for netblock ...\<close>\<close>
  | RangeStepZero             \<comment> \<open>\<open>range() arg 3 must not be zero\<close>\<close>
  | ErrorGeneratingSubnets message  \<comment> \<open>\<open>Error generating subnets: ...\<close>\<close>

datatype error =
    AddressValueError
  | NetmaskValueError
  | ValueError message
  | TypeError
  | OverflowError

text \<open>What \<open>except ValueError\<close> catches.\<close>

fun is_ValueError :: "error \<Rightarrow> bool" where
  "is_ValueError AddressValueError = True"
| "is_ValueError NetmaskValueError = True"
| "is_ValueError (ValueError m) = True"
| "is_ValueError TypeError = False"
| "is_ValueError OverflowError = False"

text \<open>\<open>try: ... except ValueError: return d\<close>.\<close>

definition except_ValueError :: "error + 'a \<Rightarrow> 'a \<Rightarrow> error + 'a" where
  "except_ValueError m d =
     (case m of Inr x \<Rightarrow> Inr x | Inl e \<Rightarrow> if is_ValueError e then Inr d else Inl e)"

text \<open>Sequencing of two computations that may raise.\<close>

definition bind :: "error + 'a \<Rightarrow> ('a \<Rightarrow> error + 'b) \<Rightarrow> error + 'b" where
  "bind m f = (case m of Inl e \<Rightarrow> Inl e | Inr x \<Rightarrow> f x)"

text \<open>Evaluating the items of a list or generator in order, up to the first that raises.\<close>

fun collect :: "(error + 'a) list \<Rightarrow> error + 'a list" where
  "collect [] = Inr []"
| "collect (m # ms) = bind m (\<lambda>x. bind (collect ms) (\<lambda>xs. Inr (x # xs)))"

subsection \<open>Python strings and numbers\<close>

text \<open>\<open>s.split(sep)\<close> for a separator of one character.\<close>

fun py_split :: "char \<Rightarrow> string \<Rightarrow> string list" where
  "py_split sep [] = [[]]"
| "py_split sep (c # cs) =
     (if c = sep then [] # py_split sep cs
      else (case py_split sep cs of [] \<Rightarrow> [[c]] | p # ps \<Rightarrow> (c # p) # ps))"

text \<open>\<open>sep.join(parts)\<close> for a separator of one character.\<close>

fun py_join :: "char \<Rightarrow> string list \<Rightarrow> string" where
  "py_join sep [] = []"
| "py_join sep [p] = p"
| "py_join sep (p # q # ps) = p @ sep # py_join sep (q # ps)"

text \<open>\<open>s.isascii() and s.isdigit()\<close>: a non-empty string of the digits 0 to 9.\<close>

definition isascii_isdigit :: "string \<Rightarrow> bool" where
  "isascii_isdigit s = (s \<noteq> [] \<and> list_all (\<lambda>c. c \<in> set ''0123456789'') s)"

definition digit_value :: "char \<Rightarrow> nat" where
  "digit_value c = of_char c - 48"

text \<open>
  \<open>int(s)\<close> on a string of decimal digits. Since CPython 3.11 the conversion raises
  \<open>ValueError\<close> (\<open>None\<close> here) when the string has more digits than
  \<open>sys.int_info.default_max_str_digits\<close>.
\<close>

definition max_str_digits :: nat where
  "max_str_digits = 4300"

definition int_of_digits :: "string \<Rightarrow> nat option" where
  "int_of_digits s =
     (if max_str_digits < length s then None
      else Some (foldl (\<lambda>n c. 10 * n + digit_value c) 0 s))"

text \<open>\<open>int(s, 16)\<close> on a string of hexadecimal digits; the empty string raises.\<close>

definition hex_value :: "char \<Rightarrow> nat" where
  "hex_value c =
     (if c \<in> set ''0123456789'' then of_char c - 48
      else if c \<in> set ''abcdef'' then of_char c - 87
      else of_char c - 55)"

definition hex_digits_value :: "string \<Rightarrow> nat" where
  "hex_digits_value s = foldl (\<lambda>n c. 16 * n + hex_value c) 0 s"

definition int_of_hex :: "string \<Rightarrow> nat option" where
  "int_of_hex s = (if s = [] then None else Some (hex_digits_value s))"

text \<open>\<open>str(n)\<close> and \<open>'%x' % n\<close> for \<open>n \<ge> 0\<close>.\<close>

definition digit_char :: "nat \<Rightarrow> char" where
  "digit_char d = ''0123456789abcdef'' ! d"

function str_nat :: "nat \<Rightarrow> string" where
  "str_nat n = (if n < 10 then [digit_char n] else str_nat (n div 10) @ [digit_char (n mod 10)])"
  by pat_completeness auto
termination
  by (relation "measure id") auto

function hex_nat :: "nat \<Rightarrow> string" where
  "hex_nat n = (if n < 16 then [digit_char n] else hex_nat (n div 16) @ [digit_char (n mod 16)])"
  by pat_completeness auto
termination
  by (relation "measure id") auto

declare str_nat.simps [simp del] hex_nat.simps [simp del]

text \<open>\<open>n.bit_length()\<close> for \<open>n \<ge> 0\<close>.\<close>

function bit_length :: "nat \<Rightarrow> nat" where
  "bit_length n = (if n = 0 then 0 else Suc (bit_length (n div 2)))"
  by pat_completeness auto
termination
  by (relation "measure id") auto

declare bit_length.simps [simp del]

text \<open>
  \<open>list(range(start, stop, step))\<close> for \<open>start, stop \<ge> 0\<close> and \<open>step \<ge> 0\<close>: the
  items \<open>start + step * i\<close> below \<open>stop\<close>; a zero step raises \<open>ValueError\<close>.
\<close>

definition py_range :: "nat \<Rightarrow> nat \<Rightarrow> nat \<Rightarrow> error + nat list" where
  "py_range start stop step =
     (if step = 0 then Inl (ValueError RangeStepZero)
      else Inr (map (\<lambda>i. start + step * i) [0 ..< (stop - start + step - 1) div step]))"

text \<open>\<open>xs[:count]\<close>; a negative \<open>count\<close> counts from the end.\<close>

definition slice_to :: "int \<Rightarrow> 'a list \<Rightarrow> 'a list" where
  "slice_to count xs =
     (if 0 \<le> count then take (nat count) xs else take (length xs - nat (- count)) xs)"

subsection \<open>\<open>ipaddress\<close>: addresses\<close>

text \<open>
  The two address families are the mixin classes \<open>_BaseV4\<close> and \<open>_BaseV6\<close>; a
  class method of the library takes the family as its first argument here.
\<close>

datatype family = V4 | V6

fun version :: "family \<Rightarrow> int" where
  "version V4 = 4"
| "version V6 = 6"

fun max_prefixlen :: "family \<Rightarrow> nat" where
  "max_prefixlen V4 = 32"
| "max_prefixlen V6 = 128"

definition ALL_ONES :: "family \<Rightarrow> nat" where
  "ALL_ONES v = 2 ^ max_prefixlen v - 1"

text \<open>
  An address object: \<open>_ip\<close>, and for IPv6 \<open>_scope_id\<close>. Equality of the datatype is
  the library's \<open>__eq__\<close>: same version, same \<open>_ip\<close>, same \<open>_scope_id\<close>.
\<close>

datatype ip_address = IPv4Address nat | IPv6Address nat "string option"

fun ip_int :: "ip_address \<Rightarrow> nat" where
  "ip_int (IPv4Address n) = n"
| "ip_int (IPv6Address n scope_id) = n"

fun address_family :: "ip_address \<Rightarrow> family" where
  "address_family (IPv4Address n) = V4"
| "address_family (IPv6Address n scope_id) = V6"

text \<open>
  The constructor from an integer, \<open>IPv4Address(n)\<close> or \<open>IPv6Address(n)\<close>:
  \<open>_check_int_address\<close> raises when the integer does not fit the family.
\<close>

fun address_class :: "family \<Rightarrow> nat \<Rightarrow> ip_address" where
  "address_class V4 n = IPv4Address n"
| "address_class V6 n = IPv6Address n None"

definition address_from_int :: "family \<Rightarrow> nat \<Rightarrow> error + ip_address" where
  "address_from_int v n =
     (if ALL_ONES v < n then Inl AddressValueError else Inr (address_class v n))"

text \<open>\<open>_BaseV4._parse_octet\<close>; \<open>None\<close> is its \<open>ValueError\<close>.\<close>

definition parse_octet :: "string \<Rightarrow> nat option" where
  "parse_octet octet_str =
     (if octet_str = [] then None
      else if \<not> isascii_isdigit octet_str then None
      else if 3 < length octet_str then None
      else if octet_str \<noteq> ''0'' \<and> hd octet_str = CHR ''0'' then None
      else (case int_of_digits octet_str of
              None \<Rightarrow> None
            | Some octet_int \<Rightarrow> if 255 < octet_int then None else Some octet_int))"

text \<open>Parsing every item of a list; the first item that raises decides.\<close>

fun those_parsed :: "'a option list \<Rightarrow> 'a list option" where
  "those_parsed [] = Some []"
| "those_parsed (None # ms) = None"
| "those_parsed (Some x # ms) = (case those_parsed ms of None \<Rightarrow> None | Some xs \<Rightarrow> Some (x # xs))"

text \<open>\<open>_BaseV4._ip_int_from_string\<close>; \<open>int.from_bytes(..., 'big')\<close> is the fold.\<close>

definition v4_ip_int_from_string :: "string \<Rightarrow> error + nat" where
  "v4_ip_int_from_string ip_str =
     (if ip_str = [] then Inl AddressValueError
      else let octets = py_split CHR ''.'' ip_str in
        if length octets \<noteq> 4 then Inl AddressValueError
        else (case those_parsed (map parse_octet octets) of
                None \<Rightarrow> Inl AddressValueError
              | Some bs \<Rightarrow> Inr (foldl (\<lambda>n b. 256 * n + b) 0 bs)))"

text \<open>\<open>IPv4Address(address)\<close> for a string.\<close>

definition IPv4Address_init :: "string \<Rightarrow> error + ip_address" where
  "IPv4Address_init address =
     (if CHR ''/'' \<in> set address then Inl AddressValueError
      else bind (v4_ip_int_from_string address) (\<lambda>n. Inr (IPv4Address n)))"

text \<open>\<open>_BaseV6._parse_hextet\<close>; \<open>None\<close> is its \<open>ValueError\<close>.\<close>

definition parse_hextet :: "string \<Rightarrow> nat option" where
  "parse_hextet hextet_str =
     (if \<not> set hextet_str \<subseteq> set ''0123456789ABCDEFabcdef'' then None
      else if 4 < length hextet_str then None
      else int_of_hex hextet_str)"

text \<open>
  The loop of \<open>_ip_int_from_string\<close> that looks for the one \<open>::\<close>: \<open>idxs\<close> are the
  indices still to visit, \<open>skip_index\<close> the index found so far.
\<close>

fun find_skip_index :: "string list \<Rightarrow> nat list \<Rightarrow> nat option \<Rightarrow> error + nat option" where
  "find_skip_index parts [] skip_index = Inr skip_index"
| "find_skip_index parts (i # idxs) skip_index =
     (if parts ! i = [] then
        (if skip_index \<noteq> None then Inl AddressValueError
         else find_skip_index parts idxs (Some i))
      else find_skip_index parts idxs skip_index)"

text \<open>The two loops that shift the hextets into the integer.\<close>

definition shift_hextets :: "nat \<Rightarrow> nat list \<Rightarrow> nat" where
  "shift_hextets ip hs = foldl (\<lambda>n h. push_bit 16 n OR h) ip hs"

text \<open>
  \<open>_BaseV6._ip_int_from_string\<close>, in the four steps of its body. First an IPv4-style
  last part is replaced by two hextets.
\<close>

definition v6_ipv4_suffix :: "string list \<Rightarrow> error + string list" where
  "v6_ipv4_suffix parts =
     (if CHR ''.'' \<in> set (last parts) then
        (case IPv4Address_init (last parts) of
           Inl e \<Rightarrow> if e = AddressValueError then Inl AddressValueError else Inl e
         | Inr a \<Rightarrow>
             Inr (butlast parts @
                    [hex_nat (drop_bit 16 (ip_int a) AND 65535), hex_nat (ip_int a AND 65535)]))
      else Inr parts)"

text \<open>
  Then \<open>parts_hi\<close>, \<open>parts_lo\<close> and \<open>parts_skipped\<close> are counted, from the index of
  the \<open>::\<close> when there is one.
\<close>

definition v6_part_counts :: "string list \<Rightarrow> nat option \<Rightarrow> error + nat \<times> nat \<times> nat" where
  "v6_part_counts parts skip_index =
     (case skip_index of
        Some i \<Rightarrow>
          let parts_hi = (if hd parts = [] then i - 1 else i);
              parts_lo = (if last parts = [] then length parts - i - 1 - 1
                          else length parts - i - 1);
              parts_skipped = 8 - int (parts_hi + parts_lo)
          in if hd parts = [] \<and> parts_hi \<noteq> 0 then Inl AddressValueError
             else if last parts = [] \<and> parts_lo \<noteq> 0 then Inl AddressValueError
             else if parts_skipped < 1 then Inl AddressValueError
             else Inr (parts_hi, parts_lo, nat parts_skipped)
      | None \<Rightarrow>
          if length parts \<noteq> 8 then Inl AddressValueError
          else if hd parts = [] then Inl AddressValueError
          else if last parts = [] then Inl AddressValueError
          else Inr (length parts, 0, 0))"

text \<open>Last the hextets are parsed and shifted into the integer.\<close>

definition v6_parse_parts :: "string list \<Rightarrow> nat \<times> nat \<times> nat \<Rightarrow> error + nat" where
  "v6_parse_parts parts counts =
     (case counts of (parts_hi, parts_lo, parts_skipped) \<Rightarrow>
        (case those_parsed (map parse_hextet (take parts_hi parts)) of
           None \<Rightarrow> Inl AddressValueError
         | Some hi \<Rightarrow>
            (case those_parsed (map parse_hextet (drop (length parts - parts_lo) parts)) of
               None \<Rightarrow> Inl AddressValueError
             | Some lo \<Rightarrow>
                 Inr (shift_hextets (push_bit (16 * parts_skipped) (shift_hextets 0 hi)) lo))))"

definition v6_ip_int_from_string :: "string \<Rightarrow> error + nat" where
  "v6_ip_int_from_string ip_str =
     (if ip_str = [] then Inl AddressValueError
      else if length (py_split CHR '':'' ip_str) < 3 then Inl AddressValueError
      else bind (v6_ipv4_suffix (py_split CHR '':'' ip_str)) (\<lambda>parts.
             if 9 < length parts then Inl AddressValueError
             else bind (find_skip_index parts [1 ..< length parts - 1] None) (\<lambda>skip_index.
                    bind (v6_part_counts parts skip_index) (v6_parse_parts parts))))"

text \<open>\<open>_BaseV6._split_scope_id\<close>, with \<open>str.partition('%')\<close> written out.\<close>

definition split_scope_id :: "string \<Rightarrow> error + string \<times> string option" where
  "split_scope_id ip_str =
     (let addr = takeWhile (\<lambda>c. c \<noteq> CHR ''%'') ip_str;
          rest = dropWhile (\<lambda>c. c \<noteq> CHR ''%'') ip_str
      in if rest = [] then Inr (addr, None)
         else if tl rest = [] \<or> CHR ''%'' \<in> set (tl rest) then Inl AddressValueError
         else Inr (addr, Some (tl rest)))"

text \<open>\<open>IPv6Address(address)\<close> for a string.\<close>

definition IPv6Address_init :: "string \<Rightarrow> error + ip_address" where
  "IPv6Address_init address =
     (if CHR ''/'' \<in> set address then Inl AddressValueError
      else bind (split_scope_id address) (\<lambda>(addr_str, scope_id).
             bind (v6_ip_int_from_string addr_str) (\<lambda>n. Inr (IPv6Address n scope_id))))"

fun Address_init :: "family \<Rightarrow> string \<Rightarrow> error + ip_address" where
  "Address_init V4 address = IPv4Address_init address"
| "Address_init V6 address = IPv6Address_init address"

text \<open>
  \<open>ipaddress.ip_address\<close>: the IPv4 constructor, then the IPv6 one; the two subclasses
  of \<open>ValueError\<close> are swallowed, any other exception propagates.
\<close>

definition ip_address :: "string \<Rightarrow> error + ip_address" where
  "ip_address address =
     (case IPv4Address_init address of
        Inr a \<Rightarrow> Inr a
      | Inl e \<Rightarrow>
          if e = AddressValueError \<or> e = NetmaskValueError then
            (case IPv6Address_init address of
               Inr a \<Rightarrow> Inr a
             | Inl e' \<Rightarrow>
                 if e' = AddressValueError \<or> e' = NetmaskValueError
                 then Inl (ValueError NotAnAddress) else Inl e')
          else Inl e)"

subsection \<open>\<open>ipaddress\<close>: string forms\<close>

text \<open>
  \<open>_BaseV4._string_from_ip_int\<close>: \<open>ip_int.to_bytes(4, 'big')\<close> raises
  \<open>OverflowError\<close> when the integer needs more than four bytes.
\<close>

definition v4_string_from_ip_int :: "nat \<Rightarrow> error + string" where
  "v4_string_from_ip_int n =
     (if 2 ^ 32 \<le> n then Inl OverflowError
      else Inr (py_join CHR ''.''
             (map str_nat [n div 2 ^ 24 mod 256, n div 2 ^ 16 mod 256, n div 2 ^ 8 mod 256,
                           n mod 256])))"

text \<open>
  The loop of \<open>_BaseV6._compress_hextets\<close> over \<open>enumerate(hextets)\<close>; the state is
  \<open>(best_doublecolon_start, best_doublecolon_len, doublecolon_start, doublecolon_len)\<close>.
\<close>

fun compress_scan :: "string list \<Rightarrow> int \<Rightarrow> int \<times> int \<times> int \<times> int \<Rightarrow> int \<times> int \<times> int \<times> int" where
  "compress_scan [] index st = st"
| "compress_scan (hextet # hs) index (best_start, best_len, start, len) =
     (if hextet = ''0'' then
        (let len' = len + 1;
             start' = (if start = - 1 then index else start)
         in if best_len < len'
            then compress_scan hs (index + 1) (start', len', start', len')
            else compress_scan hs (index + 1) (best_start, best_len, start', len'))
      else compress_scan hs (index + 1) (best_start, best_len, - 1, 0))"

definition compress_hextets :: "string list \<Rightarrow> string list" where
  "compress_hextets hextets =
     (case compress_scan hextets 0 (- 1, 0, - 1, 0) of
        (best_start, best_len, start, len) \<Rightarrow>
          if 1 < best_len then
            (let best_end = best_start + best_len;
                 hextets1 = (if best_end = int (length hextets) then hextets @ [[]] else hextets);
                 hextets2 = take (nat best_start) hextets1 @ [[]] @ drop (nat best_end) hextets1
             in if best_start = 0 then [] # hextets2 else hextets2)
          else hextets)"

text \<open>\<open>_BaseV6._string_from_ip_int\<close>; \<open>'%032x'\<close> pads the hexadecimal form with zeros.\<close>

definition v6_string_from_ip_int :: "nat \<Rightarrow> error + string" where
  "v6_string_from_ip_int n =
     (if ALL_ONES V6 < n then Inl (ValueError AddressTooLarge)
      else let hex_str = replicate (32 - length (hex_nat n)) CHR ''0'' @ hex_nat n;
               hextets = map (\<lambda>x. hex_nat (hex_digits_value (take 4 (drop x hex_str))))
                           [0, 4, 8, 12, 16, 20, 24, 28]
           in Inr (py_join CHR '':'' (compress_hextets hextets)))"

text \<open>\<open>str(address)\<close>: \<open>_BaseAddress.__str__\<close>, and \<open>IPv6Address.__str__\<close> with the scope.\<close>

fun str_address :: "ip_address \<Rightarrow> error + string" where
  "str_address (IPv4Address n) = v4_string_from_ip_int n"
| "str_address (IPv6Address n scope_id) =
     bind (v6_string_from_ip_int n) (\<lambda>ip_str.
       Inr (case scope_id of
              None \<Rightarrow> ip_str
            | Some z \<Rightarrow> if z \<noteq> [] then ip_str @ CHR ''%'' # z else ip_str))"

text \<open>
  \<open>_BaseAddress.__lt__\<close>, and \<open><=\<close> and \<open>>=\<close> as \<open>functools.total_ordering\<close>
  derives them: \<open>a < b or a == b\<close> and \<open>not a < b\<close>.
\<close>

definition address_lt :: "ip_address \<Rightarrow> ip_address \<Rightarrow> error + bool" where
  "address_lt a b =
     (if address_family a \<noteq> address_family b then Inl TypeError
      else Inr (ip_int a < ip_int b))"

definition address_le :: "ip_address \<Rightarrow> ip_address \<Rightarrow> error + bool" where
  "address_le a b = bind (address_lt a b) (\<lambda>r. Inr (r \<or> a = b))"

definition address_ge :: "ip_address \<Rightarrow> ip_address \<Rightarrow> error + bool" where
  "address_ge a b = bind (address_lt a b) (\<lambda>r. Inr (\<not> r))"

subsection \<open>\<open>ipaddress\<close>: netmasks\<close>

text \<open>\<open>_ip_int_from_prefix\<close>.\<close>

definition ip_int_from_prefix :: "family \<Rightarrow> nat \<Rightarrow> nat" where
  "ip_int_from_prefix v prefixlen = ALL_ONES v XOR drop_bit prefixlen (ALL_ONES v)"

text \<open>\<open>_count_righthand_zero_bits\<close>; \<open>~number\<close> is negative, so the conjunction is on \<open>int\<close>.\<close>

definition count_righthand_zero_bits :: "nat \<Rightarrow> nat \<Rightarrow> nat" where
  "count_righthand_zero_bits number bits =
     (if number = 0 then bits
      else min bits (bit_length (nat (NOT (int number) AND (int number - 1)))))"

text \<open>\<open>_prefix_from_ip_int\<close>.\<close>

definition prefix_from_ip_int :: "family \<Rightarrow> nat \<Rightarrow> error + nat" where
  "prefix_from_ip_int v n =
     (let trailing_zeroes = count_righthand_zero_bits n (max_prefixlen v);
          prefixlen = max_prefixlen v - trailing_zeroes;
          leading_ones = drop_bit trailing_zeroes n;
          all_ones = push_bit prefixlen 1 - 1
      in if leading_ones \<noteq> all_ones then Inl (ValueError MixesZeroesAndOnes)
         else Inr prefixlen)"

text \<open>\<open>_prefix_from_prefix_string\<close>.\<close>

definition prefix_from_prefix_string :: "family \<Rightarrow> string \<Rightarrow> error + nat" where
  "prefix_from_prefix_string v prefixlen_str =
     (if \<not> isascii_isdigit prefixlen_str then Inl NetmaskValueError
      else (case int_of_digits prefixlen_str of
              None \<Rightarrow> Inl NetmaskValueError
            | Some prefixlen \<Rightarrow>
                if \<not> prefixlen \<le> max_prefixlen v then Inl NetmaskValueError
                else Inr prefixlen))"

fun ip_int_from_string :: "family \<Rightarrow> string \<Rightarrow> error + nat" where
  "ip_int_from_string V4 ip_str = v4_ip_int_from_string ip_str"
| "ip_int_from_string V6 ip_str = v6_ip_int_from_string ip_str"

text \<open>
  \<open>_prefix_from_ip_string\<close>: the mask as a netmask, then as a hostmask. The first
  \<open>except\<close> catches \<open>AddressValueError\<close> only, the other two any \<open>ValueError\<close>.
\<close>

definition prefix_from_ip_string :: "family \<Rightarrow> string \<Rightarrow> error + nat" where
  "prefix_from_ip_string v ip_str =
     (case ip_int_from_string v ip_str of
        Inl e \<Rightarrow> if e = AddressValueError then Inl NetmaskValueError else Inl e
      | Inr n \<Rightarrow>
         (case prefix_from_ip_int v n of
            Inr prefixlen \<Rightarrow> Inr prefixlen
          | Inl e \<Rightarrow>
              if \<not> is_ValueError e then Inl e
              else (case prefix_from_ip_int v (n XOR ALL_ONES v) of
                      Inr prefixlen \<Rightarrow> Inr prefixlen
                    | Inl e' \<Rightarrow> if is_ValueError e' then Inl NetmaskValueError else Inl e')))"

text \<open>
  The mask handed to \<open>_make_netmask\<close> is the text after the slash, or an integer: the
  family's \<open>_max_prefixlen\<close> when the text has no slash, the new prefix length when
  \<open>subnets\<close> builds a network from a pair.
\<close>

datatype mask_arg = MaskInt int | MaskStr string

text \<open>
  \<open>_BaseV4._make_netmask\<close> and \<open>_BaseV6._make_netmask\<close>; only the IPv4 one falls
  back on the dotted form. The prefix length is computed first, then the netmask
  object. The class-level cache memoises a function of the argument alone and is left
  out.
\<close>

definition make_netmask_prefixlen :: "family \<Rightarrow> mask_arg \<Rightarrow> error + nat" where
  "make_netmask_prefixlen v arg =
     (case arg of
        MaskInt prefixlen \<Rightarrow>
          if \<not> (0 \<le> prefixlen \<and> prefixlen \<le> int (max_prefixlen v)) then Inl NetmaskValueError
          else Inr (nat prefixlen)
      | MaskStr s \<Rightarrow>
         (case v of
            V4 \<Rightarrow>
              (case prefix_from_prefix_string V4 s of
                 Inr prefixlen \<Rightarrow> Inr prefixlen
               | Inl e \<Rightarrow> if e = NetmaskValueError then prefix_from_ip_string V4 s else Inl e)
          | V6 \<Rightarrow> prefix_from_prefix_string V6 s))"

definition make_netmask :: "family \<Rightarrow> mask_arg \<Rightarrow> error + ip_address \<times> nat" where
  "make_netmask v arg =
     bind (make_netmask_prefixlen v arg) (\<lambda>prefixlen.
       bind (address_from_int v (ip_int_from_prefix v prefixlen)) (\<lambda>netmask.
         Inr (netmask, prefixlen)))"

subsection \<open>\<open>ipaddress\<close>: networks\<close>

text \<open>
  A network object: its class, \<open>network_address\<close>, \<open>netmask\<close> and \<open>_prefixlen\<close>.
\<close>

record ip_network =
  net_family :: family
  network_address :: ip_address
  netmask :: ip_address
  prefixlen :: nat

text \<open>\<open>_split_optional_netmask\<close> and \<open>_split_addr_prefix\<close> for a string.\<close>

definition split_optional_netmask :: "string \<Rightarrow> error + string list" where
  "split_optional_netmask address =
     (let addr = py_split CHR ''/'' address
      in if 2 < length addr then Inl AddressValueError else Inr addr)"

definition split_addr_prefix :: "family \<Rightarrow> string \<Rightarrow> error + string \<times> mask_arg" where
  "split_addr_prefix v address =
     bind (split_optional_netmask address) (\<lambda>parts.
       if 1 < length parts then Inr (hd parts, MaskStr (parts ! 1))
       else Inr (hd parts, MaskInt (int (max_prefixlen v))))"

text \<open>
  The first three statements of \<open>IPv4Network.__init__\<close> and \<open>IPv6Network.__init__\<close>:
  the address and the mask as written, before the host bits are looked at.
\<close>

definition network_parts :: "family \<Rightarrow> string \<Rightarrow> error + ip_address \<times> ip_address \<times> nat" where
  "network_parts v address =
     bind (split_addr_prefix v address) (\<lambda>(addr, mask).
       bind (Address_init v addr) (\<lambda>na.
         bind (make_netmask v mask) (\<lambda>(nm, p). Inr (na, nm, p))))"

text \<open>
  The rest of \<open>__init__\<close> with \<open>strict=True\<close>, the default, which is what every
  caller in \<open>ipam.py\<close> and \<open>subnets\<close> itself use.
\<close>

definition check_host_bits :: "family \<Rightarrow> ip_address \<times> ip_address \<times> nat \<Rightarrow> error + ip_network" where
  "check_host_bits v parts =
     (case parts of (na, nm, p) \<Rightarrow>
        let packed = ip_int na
        in if packed AND ip_int nm \<noteq> packed then Inl (ValueError HostBitsSet)
           else Inr \<lparr>net_family = v, network_address = na, netmask = nm, prefixlen = p\<rparr>)"

definition Network_init :: "family \<Rightarrow> string \<Rightarrow> error + ip_network" where
  "Network_init v address = bind (network_parts v address) (check_host_bits v)"

text \<open>The same constructor on a pair \<open>(new_addr, new_prefixlen)\<close> of integers.\<close>

definition Network_from_pair :: "family \<Rightarrow> nat \<Rightarrow> int \<Rightarrow> error + ip_network" where
  "Network_from_pair v new_addr new_prefixlen =
     bind (address_from_int v new_addr) (\<lambda>na.
       bind (make_netmask v (MaskInt new_prefixlen)) (\<lambda>(nm, p).
         check_host_bits v (na, nm, p)))"

text \<open>
  \<open>ipaddress.ip_network\<close>: the IPv4 constructor, then the IPv6 one. The plain
  \<open>ValueError\<close> for host bits is not one of the two subclasses, so it leaves at once.
\<close>

definition ip_network :: "string \<Rightarrow> error + ip_network" where
  "ip_network address =
     (case Network_init V4 address of
        Inr n \<Rightarrow> Inr n
      | Inl e \<Rightarrow>
          if e = AddressValueError \<or> e = NetmaskValueError then
            (case Network_init V6 address of
               Inr n \<Rightarrow> Inr n
             | Inl e' \<Rightarrow>
                 if e' = AddressValueError \<or> e' = NetmaskValueError
                 then Inl (ValueError NotANetwork) else Inl e')
          else Inl e)"

text \<open>The cached properties \<open>hostmask\<close> and \<open>broadcast_address\<close>, and \<open>num_addresses\<close>.\<close>

definition hostmask :: "ip_network \<Rightarrow> error + ip_address" where
  "hostmask net =
     address_from_int (net_family net) (ip_int (netmask net) XOR ALL_ONES (net_family net))"

definition broadcast_address :: "ip_network \<Rightarrow> error + ip_address" where
  "broadcast_address net =
     bind (hostmask net) (\<lambda>hm.
       address_from_int (net_family net) (ip_int (network_address net) OR ip_int hm))"

definition num_addresses :: "ip_network \<Rightarrow> error + int" where
  "num_addresses net =
     bind (broadcast_address net) (\<lambda>b.
       Inr (int (ip_int b) - int (ip_int (network_address net)) + 1))"

text \<open>\<open>str(network)\<close>.\<close>

definition str_network :: "ip_network \<Rightarrow> error + string" where
  "str_network net =
     bind (str_address (network_address net)) (\<lambda>s.
       Inr (s @ CHR ''/'' # str_nat (prefixlen net)))"

text \<open>
  \<open>network.hosts()\<close>, a generator: the list holds, in order, what each step of the
  iteration gives, an address or the exception raised there.

  \<open>__init__\<close> replaces the method on two kinds of instance: with one bit of host part
  \<open>hosts\<close> is \<open>__iter__\<close>, every address of the block; with none it is the list
  \<open>[IPv4Address(addr)]\<close> (or \<open>IPv6Address\<close>), built from the same text as
  \<open>network_address\<close> and therefore equal to it. Otherwise \<open>_BaseNetwork.hosts\<close> leaves
  out the first and the last address and \<open>IPv6Network.hosts\<close> the first only.
\<close>

definition hosts :: "ip_network \<Rightarrow> (error + ip_address) list" where
  "hosts net =
     (let v = net_family net; network = ip_int (network_address net)
      in if prefixlen net = max_prefixlen v - 1 then
           (case broadcast_address net of
              Inl e \<Rightarrow> [Inl e]
            | Inr b \<Rightarrow> map (address_from_int v) [network ..< ip_int b + 1])
         else if prefixlen net = max_prefixlen v then [Inr (network_address net)]
         else (case broadcast_address net of
                 Inl e \<Rightarrow> [Inl e]
               | Inr b \<Rightarrow>
                  (case v of
                     V4 \<Rightarrow> map (address_from_int v) [network + 1 ..< ip_int b]
                   | V6 \<Rightarrow> map (address_from_int v) [network + 1 ..< ip_int b + 1])))"

text \<open>
  \<open>list(network.subnets(new_prefix=new_prefix))\<close>. \<open>prefixlen_diff\<close> keeps its default
  of 1, so the test \<open>prefixlen_diff != 1\<close> never fires and is left out.
\<close>

definition subnets :: "ip_network \<Rightarrow> int \<Rightarrow> error + ip_network list" where
  "subnets net new_prefix =
     (let v = net_family net in
      if prefixlen net = max_prefixlen v then Inr [net]
      else if new_prefix < int (prefixlen net) then Inl (ValueError NewPrefixMustBeLonger)
      else let prefixlen_diff = new_prefix - int (prefixlen net) in
        if prefixlen_diff < 0 then Inl (ValueError PrefixLengthDiffNegative)
        else let new_prefixlen = int (prefixlen net) + prefixlen_diff in
          if int (max_prefixlen v) < new_prefixlen
          then Inl (ValueError (PrefixLengthDiffInvalid new_prefixlen))
          else bind (broadcast_address net) (\<lambda>b.
                 bind (hostmask net) (\<lambda>hm.
                   bind (py_range (ip_int (network_address net)) (ip_int b + 1)
                           (drop_bit (nat prefixlen_diff) (ip_int hm + 1)))
                     (\<lambda>new_addrs.
                        collect (map (\<lambda>new_addr. Network_from_pair v new_addr new_prefixlen)
                                   new_addrs)))))"

text \<open>\<open>a.subnet_of(b)\<close>, that is \<open>_is_subnet_of(a, b)\<close>.\<close>

definition subnet_of :: "ip_network \<Rightarrow> ip_network \<Rightarrow> error + bool" where
  "subnet_of a b =
     (if version (net_family a) \<noteq> version (net_family b) then Inl TypeError
      else bind (address_le (network_address b) (network_address a)) (\<lambda>lower.
             if \<not> lower then Inr False
             else bind (broadcast_address b) (\<lambda>bb.
                    bind (broadcast_address a) (\<lambda>ba. address_ge bb ba))))"

subsection \<open>\<open>IPAddressManager\<close>\<close>

text \<open>
  Each method returns \<open>Inr\<close> of its result, or \<open>Inl\<close> of the exception that leaves
  it. The model has no bound on time or memory: \<open>list(...)\<close> of a generator is the
  whole list, however long.
\<close>

definition validate_cidr :: "string \<Rightarrow> error + bool" where
  "validate_cidr cidr = except_ValueError (bind (ip_network cidr) (\<lambda>n. Inr True)) False"

definition is_subnet_of :: "string \<Rightarrow> string \<Rightarrow> error + bool" where
  "is_subnet_of parent_cidr subnet_cidr =
     except_ValueError
       (bind (ip_network parent_cidr) (\<lambda>parent_net.
          bind (ip_network subnet_cidr) (\<lambda>subnet_net.
            subnet_of subnet_net parent_net)))
       False"

text \<open>\<open>str(e)\<close> of a caught exception.\<close>

fun str_error :: "error \<Rightarrow> message" where
  "str_error (ValueError m) = m"
| "str_error AddressValueError = InvalidAddress"
| "str_error NetmaskValueError = InvalidNetmask"
| "str_error e = InvalidAddress"

definition generate_subnets :: "string \<Rightarrow> int \<Rightarrow> int \<Rightarrow> error + string list" where
  "generate_subnets parent_cidr new_prefix count =
     (case bind (ip_network parent_cidr) (\<lambda>parent_net.
             bind (subnets parent_net new_prefix) (\<lambda>subnets.
               collect (map str_network (slice_to count subnets)))) of
        Inr r \<Rightarrow> Inr r
      | Inl e \<Rightarrow>
          if is_ValueError e then Inl (ValueError (ErrorGeneratingSubnets (str_error e)))
          else Inl e)"

text \<open>The \<open>for\<close> loop of \<open>get_available_ip\<close> over the generator.\<close>

fun first_unused :: "(error + ip_address) list \<Rightarrow> ip_address set \<Rightarrow> error + string option" where
  "first_unused [] used_set = Inr None"
| "first_unused (Inl e # rest) used_set = Inl e"
| "first_unused (Inr host # rest) used_set =
     (if host \<notin> used_set then bind (str_address host) (\<lambda>s. Inr (Some s))
      else first_unused rest used_set)"

definition get_available_ip :: "string \<Rightarrow> string list \<Rightarrow> error + string option" where
  "get_available_ip subnet_cidr used_ips =
     except_ValueError
       (bind (ip_network subnet_cidr) (\<lambda>subnet.
          bind (collect (map ip_address used_ips)) (\<lambda>used.
            first_unused (hosts subnet) (set used))))
       None"

text \<open>
  The dictionary of \<open>calculate_network_info\<close>: keys in the order of the literal, the
  values strings, integers or \<open>None\<close>. The empty dictionary is the empty list.
\<close>

datatype py_value = PyStr string | PyInt int | PyNone

definition first_usable :: "ip_network \<Rightarrow> error + py_value" where
  "first_usable net =
     bind (collect (hosts net)) (\<lambda>hs.
       case hs of [] \<Rightarrow> Inr PyNone | h # rest \<Rightarrow> bind (str_address h) (\<lambda>s. Inr (PyStr s)))"

definition last_usable :: "ip_network \<Rightarrow> error + py_value" where
  "last_usable net =
     bind (collect (hosts net)) (\<lambda>hs.
       if hs = [] then Inr PyNone else bind (str_address (last hs)) (\<lambda>s. Inr (PyStr s)))"

definition usable_hosts :: "ip_network \<Rightarrow> error + int" where
  "usable_hosts net =
     bind (num_addresses net) (\<lambda>n. Inr (if version (net_family net) = 4 then n - 2 else n))"

definition calculate_network_info :: "string \<Rightarrow> error + (string \<times> py_value) list" where
  "calculate_network_info cidr =
     except_ValueError
       (bind (ip_network cidr) (\<lambda>network.
        bind (str_address (network_address network)) (\<lambda>na.
        bind (bind (broadcast_address network) str_address) (\<lambda>ba.
        bind (str_address (netmask network)) (\<lambda>nm.
        bind (bind (hostmask network) str_address) (\<lambda>hm.
        bind (num_addresses network) (\<lambda>num.
        bind (usable_hosts network) (\<lambda>usable.
        bind (first_usable network) (\<lambda>first.
        bind (last_usable network) (\<lambda>last.
          Inr [(''network_address'', PyStr na),
               (''broadcast_address'', PyStr ba),
               (''netmask'', PyStr nm),
               (''hostmask'', PyStr hm),
               (''prefixlen'', PyInt (int (prefixlen network))),
               (''num_addresses'', PyInt num),
               (''usable_hosts'', PyInt usable),
               (''first_usable'', first),
               (''last_usable'', last)]))))))))))
       []"

section \<open>Notions used to state the properties\<close>

text \<open>The number of addresses of a block of the given prefix length.\<close>

definition block_size :: "ip_network \<Rightarrow> nat" where
  "block_size net = 2 ^ (max_prefixlen (net_family net) - prefixlen net)"

text \<open>
  What the constructor establishes: the prefix length fits the family, the netmask is
  the one of that prefix length, and the network address fits the family and has no
  bit set below the prefix, that is, it is a multiple of the block size.
\<close>

definition network_ok :: "ip_network \<Rightarrow> bool" where
  "network_ok net \<longleftrightarrow>
     prefixlen net \<le> max_prefixlen (net_family net) \<and>
     address_family (network_address net) = net_family net \<and>
     netmask net = address_class (net_family net)
                     (ip_int_from_prefix (net_family net) (prefixlen net)) \<and>
     ip_int (network_address net) < 2 ^ max_prefixlen (net_family net) \<and>
     block_size net dvd ip_int (network_address net)"

text \<open>
  The host addresses of a block in ascending order, as arithmetic on the network
  address: the single address of a block without host part; both addresses of a block
  with one bit of host part; otherwise every address but the first and, for IPv4, the
  last.
\<close>

definition host_addresses :: "ip_network \<Rightarrow> ip_address list" where
  "host_addresses net =
     (let v = net_family net; n = ip_int (network_address net)
      in if prefixlen net = max_prefixlen v then [network_address net]
         else if prefixlen net = max_prefixlen v - 1 then map (address_class v) [n ..< n + 2]
         else (case v of
                 V4 \<Rightarrow> map (address_class v) [n + 1 ..< n + block_size net - 1]
               | V6 \<Rightarrow> map (address_class v) [n + 1 ..< n + block_size net]))"

text \<open>
  The text of an address and of a network whose integers fit their family, where
  \<open>str\<close> cannot raise.
\<close>

definition address_text :: "ip_address \<Rightarrow> string" where
  "address_text a = (case str_address a of Inr s \<Rightarrow> s | Inl e \<Rightarrow> [])"

definition network_text :: "ip_network \<Rightarrow> string" where
  "network_text net = address_text (network_address net) @ CHR ''/'' # str_nat (prefixlen net)"

text \<open>
  The blocks of prefix length \<open>n\<close> that a parent divides into, in ascending order:
  block \<open>k\<close> starts \<open>k\<close> times the new block size after the parent. A parent without
  host part is its own single block.
\<close>

definition subnet_blocks :: "ip_network \<Rightarrow> nat \<Rightarrow> ip_network list" where
  "subnet_blocks net n =
     (let v = net_family net in
      if prefixlen net = max_prefixlen v then [net]
      else map (\<lambda>k. \<lparr>net_family = v,
                      network_address =
                        address_class v (ip_int (network_address net) + k * 2 ^ (max_prefixlen v - n)),
                      netmask = address_class v (ip_int_from_prefix v n),
                      prefixlen = n\<rparr>)
             [0 ..< 2 ^ (n - prefixlen net)])"

section \<open>Properties\<close>

subsection \<open>Evaluation on concrete inputs\<close>

lemma replicate_numeral: "replicate (numeral k) x = x # replicate (pred_numeral k) x"
  by (simp add: numeral_eq_Suc)

lemmas py_defs =
  except_ValueError_def isascii_isdigit_def digit_value_def max_str_digits_def
  int_of_digits_def hex_value_def hex_digits_value_def int_of_hex_def digit_char_def
  str_nat.simps hex_nat.simps bit_length.simps py_range_def slice_to_def Let_def
  replicate_numeral upt_conv_Cons

lemmas address_defs =
  ALL_ONES_def address_from_int_def parse_octet_def v4_ip_int_from_string_def
  IPv4Address_init_def parse_hextet_def shift_hextets_def v6_ipv4_suffix_def
  v6_part_counts_def v6_parse_parts_def v6_ip_int_from_string_def split_scope_id_def
  IPv6Address_init_def ip_address_def v4_string_from_ip_int_def compress_hextets_def
  v6_string_from_ip_int_def address_lt_def address_le_def address_ge_def

lemmas network_defs =
  ip_int_from_prefix_def count_righthand_zero_bits_def prefix_from_ip_int_def
  prefix_from_prefix_string_def prefix_from_ip_string_def make_netmask_prefixlen_def
  make_netmask_def split_optional_netmask_def split_addr_prefix_def network_parts_def
  check_host_bits_def Network_init_def Network_from_pair_def ip_network_def hostmask_def
  broadcast_address_def num_addresses_def str_network_def hosts_def subnets_def subnet_of_def

subsection \<open>Exceptions and sequencing\<close>

lemma bind_Inr_iff: "bind m f = Inr y \<longleftrightarrow> (\<exists>x. m = Inr x \<and> f x = Inr y)"
  by (cases m) (simp_all add: bind_def)

lemma bind_Inl_iff: "bind m f = Inl e \<longleftrightarrow> m = Inl e \<or> (\<exists>x. m = Inr x \<and> f x = Inl e)"
  by (cases m) (simp_all add: bind_def)

lemma bind_Inr [simp]: "bind (Inr x) f = f x"
  by (simp add: bind_def)

lemma bind_Inl [simp]: "bind (Inl e) f = Inl e"
  by (simp add: bind_def)

subsection \<open>Parsing an address raises nothing but \<open>AddressValueError\<close>\<close>

lemma v4_ip_int_from_string_error: "v4_ip_int_from_string s = Inl e \<Longrightarrow> e = AddressValueError"
  by (auto simp: v4_ip_int_from_string_def Let_def split: if_splits option.splits)

lemma IPv4Address_init_error: "IPv4Address_init s = Inl e \<Longrightarrow> e = AddressValueError"
  by (auto simp: IPv4Address_init_def bind_Inl_iff split: if_splits dest: v4_ip_int_from_string_error)

lemma IPv4Address_init_family: "IPv4Address_init s = Inr a \<Longrightarrow> address_family a = V4"
  by (auto simp: IPv4Address_init_def bind_Inr_iff split: if_splits)

lemma find_skip_index_error: "find_skip_index parts idxs k = Inl e \<Longrightarrow> e = AddressValueError"
  by (induction parts idxs k rule: find_skip_index.induct) (auto split: if_splits)

lemma v6_ipv4_suffix_error: "v6_ipv4_suffix ps = Inl e \<Longrightarrow> e = AddressValueError"
  by (auto simp: v6_ipv4_suffix_def split: if_splits sum.splits dest: IPv4Address_init_error)

lemma v6_part_counts_error: "v6_part_counts ps k = Inl e \<Longrightarrow> e = AddressValueError"
  by (auto simp: v6_part_counts_def Let_def split: if_splits option.splits)

lemma v6_parse_parts_error: "v6_parse_parts ps c = Inl e \<Longrightarrow> e = AddressValueError"
  by (auto simp: v6_parse_parts_def split: prod.splits option.splits)

lemma v6_ip_int_from_string_error: "v6_ip_int_from_string s = Inl e \<Longrightarrow> e = AddressValueError"
  unfolding v6_ip_int_from_string_def
  by (auto simp: bind_Inl_iff split: if_splits
      dest: find_skip_index_error v6_ipv4_suffix_error v6_part_counts_error v6_parse_parts_error)

lemma split_scope_id_error: "split_scope_id s = Inl e \<Longrightarrow> e = AddressValueError"
  by (auto simp: split_scope_id_def Let_def split: if_splits)

lemma IPv6Address_init_error: "IPv6Address_init s = Inl e \<Longrightarrow> e = AddressValueError"
  by (auto simp: IPv6Address_init_def bind_Inl_iff split: if_splits prod.splits
      dest: v6_ip_int_from_string_error split_scope_id_error)

lemma IPv6Address_init_family: "IPv6Address_init s = Inr a \<Longrightarrow> address_family a = V6"
  by (auto simp: IPv6Address_init_def bind_Inr_iff split: if_splits prod.splits)

lemma Address_init_error: "Address_init v s = Inl e \<Longrightarrow> e = AddressValueError"
  by (cases v) (auto dest: IPv4Address_init_error IPv6Address_init_error)

lemma Address_init_family: "Address_init v s = Inr a \<Longrightarrow> address_family a = v"
  by (cases v) (auto dest: IPv4Address_init_family IPv6Address_init_family)

lemma ip_address_error: "ip_address s = Inl e \<Longrightarrow> e = ValueError NotAnAddress"
  by (auto simp: ip_address_def split: sum.splits if_splits
      dest: IPv4Address_init_error IPv6Address_init_error)

subsection \<open>Netmasks as arithmetic\<close>

lemma ALL_ONES_mask: "ALL_ONES v = mask (max_prefixlen v)"
  by (simp add: ALL_ONES_def mask_eq_exp_minus_1)

lemma bit_ip_int_from_prefix:
  "p \<le> max_prefixlen v \<Longrightarrow>
   bit (ip_int_from_prefix v p) i \<longleftrightarrow> max_prefixlen v - p \<le> i \<and> i < max_prefixlen v"
  by (auto simp: ip_int_from_prefix_def ALL_ONES_mask bit_simps)

lemma less_exp_iff_bits: "(x::nat) < 2 ^ n \<longleftrightarrow> (\<forall>i. bit x i \<longrightarrow> i < n)"
proof -
  have "x < 2 ^ n \<longleftrightarrow> take_bit n x = x"
    by (simp add: take_bit_nat_eq_self_iff)
  also have "\<dots> \<longleftrightarrow> (\<forall>i. bit (take_bit n x) i = bit x i)"
    by (metis bit_eq_iff)
  also have "\<dots> \<longleftrightarrow> (\<forall>i. bit x i \<longrightarrow> i < n)"
    by (auto simp only: bit_take_bit_iff)
  finally show ?thesis .
qed

lemma exp_dvd_iff_bits: "2 ^ n dvd (x::nat) \<longleftrightarrow> (\<forall>i. bit x i \<longrightarrow> n \<le> i)"
proof -
  have "2 ^ n dvd x \<longleftrightarrow> take_bit n x = 0"
    by (simp add: take_bit_eq_0_iff)
  also have "\<dots> \<longleftrightarrow> (\<forall>i. bit (take_bit n x) i = bit (0::nat) i)"
    by (metis bit_eq_iff)
  also have "\<dots> \<longleftrightarrow> (\<forall>i. bit x i \<longrightarrow> n \<le> i)"
    by (auto simp add: bit_take_bit_iff not_less)
  finally show ?thesis .
qed

lemma and_netmask_iff:
  assumes "p \<le> max_prefixlen v"
  shows "x AND ip_int_from_prefix v p = x \<longleftrightarrow>
         x < 2 ^ max_prefixlen v \<and> 2 ^ (max_prefixlen v - p) dvd x"
proof -
  have "x AND ip_int_from_prefix v p = x \<longleftrightarrow>
        (\<forall>i. bit (x AND ip_int_from_prefix v p) i = bit x i)"
    by (metis bit_eq_iff)
  also have "\<dots> \<longleftrightarrow> (\<forall>i. bit x i \<longrightarrow> max_prefixlen v - p \<le> i \<and> i < max_prefixlen v)"
    using assms by (auto simp only: bit_and_iff bit_ip_int_from_prefix)
  also have "\<dots> \<longleftrightarrow> x < 2 ^ max_prefixlen v \<and> 2 ^ (max_prefixlen v - p) dvd x"
    unfolding less_exp_iff_bits exp_dvd_iff_bits by blast
  finally show ?thesis .
qed

lemma hostmask_int:
  assumes "p \<le> max_prefixlen v"
  shows "ip_int_from_prefix v p XOR ALL_ONES v = 2 ^ (max_prefixlen v - p) - 1"
proof -
  have "bit (ip_int_from_prefix v p XOR ALL_ONES v) i = bit (mask (max_prefixlen v - p) :: nat) i" for i
    using assms by (auto simp add: bit_xor_iff bit_ip_int_from_prefix ALL_ONES_mask bit_mask_iff)
  then have "ip_int_from_prefix v p XOR ALL_ONES v = mask (max_prefixlen v - p)"
    by (rule bit_eqI)
  then show ?thesis by (simp add: mask_eq_exp_minus_1)
qed

lemma or_hostmask:
  fixes x :: nat
  assumes "2 ^ k dvd x"
  shows "x OR (2 ^ k - 1) = x + 2 ^ k - 1"
proof -
  from assms have "take_bit k x = 0"
    by (simp add: take_bit_eq_0_iff)
  then have "x AND mask k = 0"
    by (simp only: take_bit_eq_mask)
  then have "x + mask k = x OR mask k"
    by (rule disjunctive_add_eq_or)
  then show ?thesis by (simp add: mask_eq_exp_minus_1)
qed

subsection \<open>What the network constructor establishes\<close>

lemma prefix_from_prefix_string_Inr:
  "prefix_from_prefix_string v s = Inr p \<Longrightarrow> p \<le> max_prefixlen v"
  by (auto simp: prefix_from_prefix_string_def split: if_splits option.splits)

lemma prefix_from_prefix_string_error:
  "prefix_from_prefix_string v s = Inl e \<Longrightarrow> e = NetmaskValueError"
  by (auto simp: prefix_from_prefix_string_def split: if_splits option.splits)

lemma prefix_from_ip_int_Inr: "prefix_from_ip_int v n = Inr p \<Longrightarrow> p \<le> max_prefixlen v"
  by (auto simp: prefix_from_ip_int_def Let_def split: if_splits)

lemma prefix_from_ip_int_error: "prefix_from_ip_int v n = Inl e \<Longrightarrow> is_ValueError e"
  by (auto simp: prefix_from_ip_int_def Let_def split: if_splits)

lemma ip_int_from_string_error: "ip_int_from_string v s = Inl e \<Longrightarrow> e = AddressValueError"
  by (cases v) (auto dest: v4_ip_int_from_string_error v6_ip_int_from_string_error)

lemma prefix_from_ip_string_Inr: "prefix_from_ip_string v s = Inr p \<Longrightarrow> p \<le> max_prefixlen v"
  by (auto simp: prefix_from_ip_string_def split: sum.splits if_splits dest: prefix_from_ip_int_Inr)

lemma prefix_from_ip_string_error: "prefix_from_ip_string v s = Inl e \<Longrightarrow> e = NetmaskValueError"
  by (auto simp: prefix_from_ip_string_def split: sum.splits if_splits
      dest: prefix_from_ip_int_error ip_int_from_string_error)

lemma ip_int_from_prefix_le: "p \<le> max_prefixlen v \<Longrightarrow> ip_int_from_prefix v p \<le> ALL_ONES v"
proof -
  assume "p \<le> max_prefixlen v"
  then have "take_bit (max_prefixlen v) (ip_int_from_prefix v p) = ip_int_from_prefix v p"
    by (auto simp: bit_eq_iff bit_simps bit_ip_int_from_prefix)
  then have "ip_int_from_prefix v p < 2 ^ max_prefixlen v"
    by (simp add: take_bit_nat_eq_self_iff)
  then show ?thesis by (simp add: ALL_ONES_def)
qed

lemma make_netmask_prefixlen_Inr:
  "make_netmask_prefixlen v arg = Inr p \<Longrightarrow> p \<le> max_prefixlen v"
proof (cases arg)
  case (MaskInt n)
  assume "make_netmask_prefixlen v arg = Inr p"
  with MaskInt show ?thesis
    by (auto simp: make_netmask_prefixlen_def split: if_splits)
next
  case (MaskStr s)
  assume *: "make_netmask_prefixlen v arg = Inr p"
  show ?thesis
  proof (cases v)
    case V4
    with * MaskStr show ?thesis
      by (cases "prefix_from_prefix_string V4 s")
        (auto simp: make_netmask_prefixlen_def split: if_splits
          dest: prefix_from_prefix_string_Inr prefix_from_ip_string_Inr)
  next
    case V6
    with * MaskStr show ?thesis
      by (auto simp: make_netmask_prefixlen_def dest: prefix_from_prefix_string_Inr)
  qed
qed

lemma make_netmask_prefixlen_error:
  "make_netmask_prefixlen v arg = Inl e \<Longrightarrow> e = NetmaskValueError"
proof (cases arg)
  case (MaskInt n)
  assume "make_netmask_prefixlen v arg = Inl e"
  with MaskInt show ?thesis
    by (auto simp: make_netmask_prefixlen_def split: if_splits)
next
  case (MaskStr s)
  assume *: "make_netmask_prefixlen v arg = Inl e"
  show ?thesis
  proof (cases v)
    case V4
    with * MaskStr show ?thesis
      by (cases "prefix_from_prefix_string V4 s")
        (auto simp: make_netmask_prefixlen_def split: if_splits
          dest: prefix_from_prefix_string_error prefix_from_ip_string_error)
  next
    case V6
    with * MaskStr show ?thesis
      by (auto simp: make_netmask_prefixlen_def dest: prefix_from_prefix_string_error)
  qed
qed

lemma make_netmask_Inr:
  assumes "make_netmask v arg = Inr (nm, p)"
  shows "p \<le> max_prefixlen v \<and> nm = address_class v (ip_int_from_prefix v p)"
proof -
  from assms have "make_netmask_prefixlen v arg = Inr p"
    and "address_from_int v (ip_int_from_prefix v p) = Inr nm"
    by (auto simp: make_netmask_def bind_Inr_iff)
  then show ?thesis
    by (auto simp: address_from_int_def split: if_splits dest: make_netmask_prefixlen_Inr)
qed

lemma make_netmask_error:
  "make_netmask v arg = Inl e \<Longrightarrow> e = NetmaskValueError \<or> e = AddressValueError"
  by (auto simp: make_netmask_def bind_Inl_iff address_from_int_def split: if_splits
      dest: make_netmask_prefixlen_error)

lemma split_addr_prefix_error: "split_addr_prefix v s = Inl e \<Longrightarrow> e = AddressValueError"
  by (auto simp: split_addr_prefix_def split_optional_netmask_def Let_def bind_Inl_iff split: if_splits)

lemma network_parts_error:
  "network_parts v s = Inl e \<Longrightarrow> e = NetmaskValueError \<or> e = AddressValueError"
  by (auto simp: network_parts_def bind_Inl_iff split: prod.splits
      dest: split_addr_prefix_error Address_init_error make_netmask_error)

lemma network_parts_Inr:
  "network_parts v s = Inr (na, nm, p) \<Longrightarrow>
   address_family na = v \<and> p \<le> max_prefixlen v \<and> nm = address_class v (ip_int_from_prefix v p)"
  by (auto simp: network_parts_def bind_Inr_iff split: prod.splits
      dest: Address_init_family make_netmask_Inr)

lemma ip_int_address_class [simp]: "ip_int (address_class v n) = n"
  by (cases v) simp_all

lemma address_family_address_class [simp]: "address_family (address_class v n) = v"
  by (cases v) simp_all

lemma check_host_bits_Inr:
  assumes "check_host_bits v (na, nm, p) = Inr net" and "address_family na = v"
    and "p \<le> max_prefixlen v" and "nm = address_class v (ip_int_from_prefix v p)"
  shows "network_ok net \<and> net_family net = v \<and> network_address net = na \<and> prefixlen net = p"
proof -
  from assms(1) have net: "net = \<lparr>net_family = v, network_address = na, netmask = nm, prefixlen = p\<rparr>"
    and "ip_int na AND ip_int nm = ip_int na"
    by (auto simp: check_host_bits_def Let_def split: if_splits)
  with assms have "ip_int na < 2 ^ max_prefixlen v \<and> 2 ^ (max_prefixlen v - p) dvd ip_int na"
    by (simp add: and_netmask_iff)
  with net assms show ?thesis
    by (simp add: network_ok_def block_size_def)
qed

lemma check_host_bits_error: "check_host_bits v parts = Inl e \<Longrightarrow> e = ValueError HostBitsSet"
  by (auto simp: check_host_bits_def Let_def split: prod.splits if_splits)

lemma Network_init_Inr:
  "Network_init v s = Inr net \<Longrightarrow> network_ok net \<and> net_family net = v"
  by (auto simp: Network_init_def bind_Inr_iff dest!: network_parts_Inr dest: check_host_bits_Inr)

lemma Network_init_error:
  "Network_init v s = Inl e \<Longrightarrow>
   e = NetmaskValueError \<or> e = AddressValueError \<or> e = ValueError HostBitsSet"
  by (auto simp: Network_init_def bind_Inl_iff dest: network_parts_error check_host_bits_error)

lemma ip_network_Inr: "ip_network s = Inr net \<Longrightarrow> network_ok net"
  by (auto simp: ip_network_def split: sum.splits if_splits dest: Network_init_Inr)

lemma ip_network_error:
  "ip_network s = Inl e \<Longrightarrow> e = ValueError NotANetwork \<or> e = ValueError HostBitsSet"
  by (auto simp: ip_network_def split: sum.splits if_splits dest: Network_init_error)

subsection \<open>Attributes of a constructed network\<close>

lemma block_le:
  fixes n :: nat
  assumes "n < 2 ^ M" and "2 ^ k dvd n" and "k \<le> M"
  shows "n + 2 ^ k \<le> 2 ^ M"
proof -
  from assms(2) obtain q where q: "n = 2 ^ k * q" ..
  from assms(3) have M: "(2::nat) ^ M = 2 ^ k * 2 ^ (M - k)"
    by (simp add: power_add [symmetric])
  with assms(1) q have "q < 2 ^ (M - k)" by simp
  then have "q + 1 \<le> 2 ^ (M - k)" by simp
  then have "2 ^ k * (q + 1) \<le> 2 ^ k * 2 ^ (M - k)"
    by (rule mult_le_mono2)
  with q M show ?thesis by simp
qed

lemma network_ok_last_le:
  assumes "network_ok net"
  shows "ip_int (network_address net) + block_size net \<le> 2 ^ max_prefixlen (net_family net)"
  using assms unfolding network_ok_def block_size_def
  by (intro block_le) simp_all

lemma block_size_pos [simp]: "0 < block_size net"
  by (simp add: block_size_def)

lemma address_from_int_Inr:
  "n < 2 ^ max_prefixlen v \<Longrightarrow> address_from_int v n = Inr (address_class v n)"
  by (simp add: address_from_int_def ALL_ONES_def)

lemma hostmask_ok:
  assumes "network_ok net"
  shows "hostmask net = Inr (address_class (net_family net) (block_size net - 1))"
proof -
  let ?v = "net_family net"
  from assms have p: "prefixlen net \<le> max_prefixlen ?v"
    and nm: "ip_int (netmask net) = ip_int_from_prefix ?v (prefixlen net)"
    by (simp_all add: network_ok_def)
  have "ip_int (netmask net) XOR ALL_ONES ?v = block_size net - 1"
    using p nm by (simp add: hostmask_int block_size_def)
  moreover have "block_size net - 1 < 2 ^ max_prefixlen ?v"
    using network_ok_last_le [OF assms] block_size_pos [of net] by linarith
  ultimately show ?thesis
    by (simp add: hostmask_def address_from_int_Inr)
qed

lemma broadcast_address_ok:
  assumes "network_ok net"
  shows "broadcast_address net =
         Inr (address_class (net_family net) (ip_int (network_address net) + block_size net - 1))"
proof -
  let ?v = "net_family net" and ?n = "ip_int (network_address net)"
  from assms have "block_size net dvd ?n"
    by (simp add: network_ok_def)
  then have "?n OR (block_size net - 1) = ?n + block_size net - 1"
    unfolding block_size_def by (rule or_hostmask)
  moreover have "?n + block_size net - 1 < 2 ^ max_prefixlen ?v"
    using network_ok_last_le [OF assms] block_size_pos [of net] by linarith
  ultimately show ?thesis
    by (simp add: broadcast_address_def hostmask_ok [OF assms] address_from_int_Inr)
qed

lemma num_addresses_ok:
  assumes "network_ok net"
  shows "num_addresses net = Inr (int (block_size net))"
proof -
  have "int (ip_int (network_address net) + block_size net - 1) =
        int (ip_int (network_address net)) + int (block_size net) - 1"
    using block_size_pos [of net] by linarith
  then show ?thesis
    by (simp add: num_addresses_def broadcast_address_ok [OF assms])
qed

lemma collect_map_Inr [simp]: "collect (map Inr xs) = Inr xs"
  by (induction xs) simp_all

lemma map_address_from_int:
  assumes "\<forall>x \<in> set xs. x < 2 ^ max_prefixlen v"
  shows "map (address_from_int v) xs = map Inr (map (address_class v) xs)"
  using assms by (induction xs) (simp_all add: address_from_int_Inr)

lemma hosts_ok:
  assumes "network_ok net"
  shows "hosts net = map Inr (host_addresses net)"
proof -
  let ?v = "net_family net" and ?n = "ip_int (network_address net)"
  have le: "?n + block_size net \<le> 2 ^ max_prefixlen ?v"
    using assms by (rule network_ok_last_le)
  have b: "broadcast_address net = Inr (address_class ?v (?n + block_size net - 1))"
    using assms by (rule broadcast_address_ok)
  have m: "map (address_from_int ?v) [i ..< j] = map Inr (map (address_class ?v) [i ..< j])"
    if "j \<le> ?n + block_size net" for i j
    using that le by (intro map_address_from_int) auto
  have pos: "0 < block_size net" by simp
  consider (full) "prefixlen net = max_prefixlen ?v"
    | (p2p) "prefixlen net = max_prefixlen ?v - 1" "prefixlen net \<noteq> max_prefixlen ?v"
    | (other) "prefixlen net \<noteq> max_prefixlen ?v - 1" "prefixlen net \<noteq> max_prefixlen ?v"
    by blast
  then show ?thesis
  proof cases
    case full
    then have "prefixlen net \<noteq> max_prefixlen ?v - 1"
      by (cases ?v) simp_all
    with full show ?thesis
      by (simp add: hosts_def host_addresses_def Let_def)
  next
    case p2p
    then have bs: "block_size net = 2"
      by (cases ?v) (simp_all add: block_size_def)
    have "map (address_from_int ?v) [?n ..< ?n + 2] = map Inr (map (address_class ?v) [?n ..< ?n + 2])"
      by (rule m) (simp add: bs)
    with p2p bs show ?thesis
      by (simp add: hosts_def host_addresses_def Let_def b)
  next
    case other
    have af: "address_from_int ?v x = Inr (address_class ?v x)" if "x < ?n + block_size net" for x
      using that le by (intro address_from_int_Inr) linarith
    have af': "address_from_int ?v x = Inr (address_class ?v x)"
      if "x < ?n + block_size net - 1" for x
      using that by (intro af) linarith
    have 3: "Suc (?n + block_size net - 1) = ?n + block_size net"
      using pos by linarith
    show ?thesis
    proof (cases ?v)
      case V4
      with other af' show ?thesis
        by (simp add: hosts_def host_addresses_def Let_def b)
    next
      case V6
      with other af show ?thesis
        by (simp add: hosts_def host_addresses_def Let_def b 3)
    qed
  qed
qed

subsection \<open>Text forms, host lists and the allocation loop\<close>

lemma str_address_ok:
  assumes "ip_int a < 2 ^ max_prefixlen (address_family a)"
  shows "str_address a = Inr (address_text a)"
proof (cases a)
  case (IPv4Address n)
  with assms show ?thesis
    by (simp add: address_text_def v4_string_from_ip_int_def)
next
  case (IPv6Address n z)
  with assms have "v6_string_from_ip_int n \<noteq> Inl (ValueError AddressTooLarge)"
    by (simp add: v6_string_from_ip_int_def ALL_ONES_def Let_def)
  moreover have "v6_string_from_ip_int n = Inl e \<Longrightarrow> e = ValueError AddressTooLarge" for e
    by (simp add: v6_string_from_ip_int_def Let_def split: if_splits)
  ultimately obtain s where "v6_string_from_ip_int n = Inr s"
    by (cases "v6_string_from_ip_int n") auto
  with IPv6Address show ?thesis
    by (simp add: address_text_def)
qed

lemma str_address_class_ok:
  "n < 2 ^ max_prefixlen v \<Longrightarrow> str_address (address_class v n) = Inr (address_text (address_class v n))"
  by (rule str_address_ok) simp

lemma str_network_address_ok:
  "network_ok net \<Longrightarrow> str_address (network_address net) = Inr (address_text (network_address net))"
  by (rule str_address_ok) (simp add: network_ok_def)

lemma str_network_ok: "network_ok net \<Longrightarrow> str_network net = Inr (network_text net)"
  by (simp add: str_network_def network_text_def str_network_address_ok)

lemma host_addresses_in_range:
  assumes "network_ok net" and "h \<in> set (host_addresses net)"
  shows "ip_int h < 2 ^ max_prefixlen (address_family h)"
proof -
  let ?v = "net_family net" and ?n = "ip_int (network_address net)"
  have le: "?n + block_size net \<le> 2 ^ max_prefixlen ?v"
    using assms(1) by (rule network_ok_last_le)
  from assms(1) have na: "address_family (network_address net) = ?v" "?n < 2 ^ max_prefixlen ?v"
    by (simp_all add: network_ok_def)
  consider (full) "prefixlen net = max_prefixlen ?v"
    | (p2p) "prefixlen net = max_prefixlen ?v - 1" "prefixlen net \<noteq> max_prefixlen ?v"
    | (other) "prefixlen net \<noteq> max_prefixlen ?v - 1" "prefixlen net \<noteq> max_prefixlen ?v"
    by blast
  then show ?thesis
  proof cases
    case full
    with assms(2) na show ?thesis
      by (simp add: host_addresses_def Let_def)
  next
    case p2p
    then have "block_size net = 2"
      by (cases ?v) (simp_all add: block_size_def)
    with p2p assms(2) le show ?thesis
      by (auto simp add: host_addresses_def Let_def)
  next
    case other
    with assms(2) le show ?thesis
      by (cases ?v) (auto simp add: host_addresses_def Let_def)
  qed
qed

lemma first_unused_ok:
  assumes "\<forall>h \<in> set hs. ip_int h < 2 ^ max_prefixlen (address_family h)"
  shows "first_unused (map Inr hs) used =
         Inr (map_option address_text (find (\<lambda>h. h \<notin> used) hs))"
  using assms by (induction hs) (simp_all add: str_address_ok)

lemma collect_Inl:
  assumes "Inl e \<in> set ms"
  shows "\<exists>e'. collect ms = Inl e' \<and> Inl e' \<in> set ms"
  using assms
proof (induction ms)
  case Nil
  then show ?case by simp
next
  case (Cons m ms)
  show ?case
  proof (cases m)
    case (Inl a)
    then show ?thesis by simp
  next
    case (Inr x)
    with Cons obtain e' where "collect ms = Inl e'" "Inl e' \<in> set ms" by auto
    with Inr show ?thesis by simp
  qed
qed

lemma collect_Inr_iff: "collect ms = Inr xs \<longleftrightarrow> ms = map Inr xs"
proof (induction ms arbitrary: xs)
  case Nil
  then show ?case by auto
next
  case (Cons m ms)
  then show ?case
    by (cases m) (auto simp: bind_Inr_iff)
qed

lemma collect_ip_address_error:
  assumes "u \<in> set used_ips" and "ip_address u = Inl e"
  shows "collect (map ip_address used_ips) = Inl (ValueError NotAnAddress)"
proof -
  from assms have "Inl e \<in> set (map ip_address used_ips)"
    by (metis image_eqI set_map)
  then obtain e' where "collect (map ip_address used_ips) = Inl e'"
    and "Inl e' \<in> set (map ip_address used_ips)"
    using collect_Inl by blast
  then show ?thesis
    by (auto dest: ip_address_error [OF sym])
qed

lemma get_available_ip_invalid_used:
  assumes "u \<in> set used_ips" and "ip_address u = Inl e"
  shows "get_available_ip subnet_cidr used_ips = Inr None"
proof (cases "ip_network subnet_cidr")
  case (Inl e')
  then have "is_ValueError e'"
    by (auto dest: ip_network_error)
  with Inl show ?thesis
    by (simp add: get_available_ip_def except_ValueError_def)
next
  case (Inr subnet)
  with collect_ip_address_error [OF assms] show ?thesis
    by (simp add: get_available_ip_def except_ValueError_def)
qed

lemma get_available_ip_ok:
  assumes "ip_network subnet_cidr = Inr subnet"
    and "collect (map ip_address used_ips) = Inr used"
  shows "get_available_ip subnet_cidr used_ips =
         Inr (map_option address_text (find (\<lambda>h. h \<notin> set used) (host_addresses subnet)))"
proof -
  from assms(1) have ok: "network_ok subnet" by (rule ip_network_Inr)
  then have "first_unused (hosts subnet) (set used) =
      Inr (map_option address_text (find (\<lambda>h. h \<notin> set used) (host_addresses subnet)))"
    by (simp add: hosts_ok first_unused_ok host_addresses_in_range)
  with assms show ?thesis
    by (simp add: get_available_ip_def except_ValueError_def)
qed

lemma get_available_ip_invalid_block:
  assumes "ip_network subnet_cidr = Inl e"
  shows "get_available_ip subnet_cidr used_ips = Inr None"
proof -
  from assms have "is_ValueError e"
    by (auto dest: ip_network_error)
  with assms show ?thesis
    by (simp add: get_available_ip_def except_ValueError_def)
qed

subsection \<open>The dictionary of calculate_network_info\<close>

lemma block_size_ge_4:
  assumes "network_ok net"
    and "prefixlen net \<noteq> max_prefixlen (net_family net) - 1"
    and "prefixlen net \<noteq> max_prefixlen (net_family net)"
  shows "4 \<le> block_size net"
proof -
  from assms(1) have "prefixlen net \<le> max_prefixlen (net_family net)"
    by (simp add: network_ok_def)
  with assms(2,3) have "2 \<le> max_prefixlen (net_family net) - prefixlen net"
    by linarith
  then have "(2::nat) ^ 2 \<le> 2 ^ (max_prefixlen (net_family net) - prefixlen net)"
    by (intro power_increasing) simp_all
  then show ?thesis by (simp add: block_size_def)
qed

lemma host_addresses_cases:
  assumes "network_ok net"
  obtains
    (full) "prefixlen net = max_prefixlen (net_family net)"
      "host_addresses net = [network_address net]"
  | (p2p) "prefixlen net = max_prefixlen (net_family net) - 1"
      "host_addresses net =
         [address_class (net_family net) (ip_int (network_address net)),
          address_class (net_family net) (ip_int (network_address net) + 1)]"
  | (v4) "net_family net = V4" "prefixlen net < 31" "4 \<le> block_size net"
      "host_addresses net = map IPv4Address
         [ip_int (network_address net) + 1 ..< ip_int (network_address net) + block_size net - 1]"
  | (v6) "net_family net = V6" "prefixlen net < 127" "4 \<le> block_size net"
      "host_addresses net = map (\<lambda>n. IPv6Address n None)
         [ip_int (network_address net) + 1 ..< ip_int (network_address net) + block_size net]"
proof -
  let ?v = "net_family net"
  from assms have p: "prefixlen net \<le> max_prefixlen ?v"
    by (simp add: network_ok_def)
  consider (a) "prefixlen net = max_prefixlen ?v"
    | (b) "prefixlen net = max_prefixlen ?v - 1" "prefixlen net \<noteq> max_prefixlen ?v"
    | (c) "prefixlen net \<noteq> max_prefixlen ?v - 1" "prefixlen net \<noteq> max_prefixlen ?v"
    by blast
  then show thesis
  proof cases
    case a
    then show thesis
      by (intro full) (simp_all add: host_addresses_def Let_def)
  next
    case b
    then show thesis
      by (intro p2p) (simp_all add: host_addresses_def Let_def upt_rec [of "ip_int (network_address net)"]
          upt_rec [of "Suc (ip_int (network_address net))"])
  next
    case c
    note ge = block_size_ge_4 [OF assms c]
    show thesis
    proof (cases ?v)
      case V4
      have "address_class V4 = IPv4Address" by (rule ext) simp
      with c V4 p ge show thesis
        by (intro v4) (simp_all add: host_addresses_def Let_def)
    next
      case V6
      have "address_class V6 = (\<lambda>n. IPv6Address n None)" by (rule ext) simp
      with c V6 p ge show thesis
        by (intro v6) (simp_all add: host_addresses_def Let_def)
    qed
  qed
qed

lemma host_addresses_nonempty: "network_ok net \<Longrightarrow> host_addresses net \<noteq> []"
  by (erule host_addresses_cases) auto

lemma first_usable_ok:
  assumes "network_ok net"
  shows "first_usable net = Inr (PyStr (address_text (hd (host_addresses net))))"
proof -
  from assms obtain h hs where hs: "host_addresses net = h # hs"
    using host_addresses_nonempty by (cases "host_addresses net") auto
  then have "h \<in> set (host_addresses net)" by simp
  with assms have "str_address h = Inr (address_text h)"
    by (intro str_address_ok host_addresses_in_range)
  with assms hs show ?thesis
    by (simp add: first_usable_def hosts_ok)
qed

lemma last_usable_ok:
  assumes "network_ok net"
  shows "last_usable net = Inr (PyStr (address_text (last (host_addresses net))))"
proof -
  from assms have ne: "host_addresses net \<noteq> []"
    by (rule host_addresses_nonempty)
  then have "last (host_addresses net) \<in> set (host_addresses net)" by simp
  with assms have "str_address (last (host_addresses net)) =
      Inr (address_text (last (host_addresses net)))"
    by (intro str_address_ok host_addresses_in_range)
  with assms ne show ?thesis
    by (simp add: last_usable_def hosts_ok)
qed

lemma usable_hosts_ok:
  assumes "network_ok net"
  shows "usable_hosts net =
         Inr (if net_family net = V4 then int (block_size net) - 2 else int (block_size net))"
  using assms by (cases "net_family net") (simp_all add: usable_hosts_def num_addresses_ok)

lemma calculate_network_info_ok:
  assumes "ip_network cidr = Inr net"
  shows "calculate_network_info cidr =
    Inr [(''network_address'', PyStr (address_text (network_address net))),
         (''broadcast_address'', PyStr (address_text (address_class (net_family net)
            (ip_int (network_address net) + block_size net - 1)))),
         (''netmask'', PyStr (address_text (netmask net))),
         (''hostmask'', PyStr (address_text (address_class (net_family net) (block_size net - 1)))),
         (''prefixlen'', PyInt (int (prefixlen net))),
         (''num_addresses'', PyInt (int (block_size net))),
         (''usable_hosts'', PyInt (if net_family net = V4 then int (block_size net) - 2
                                   else int (block_size net))),
         (''first_usable'', PyStr (address_text (hd (host_addresses net)))),
         (''last_usable'', PyStr (address_text (last (host_addresses net))))]"
proof -
  let ?v = "net_family net"
  from assms have ok: "network_ok net" by (rule ip_network_Inr)
  have le: "ip_int (network_address net) + block_size net \<le> 2 ^ max_prefixlen ?v"
    using ok by (rule network_ok_last_le)
  have pos: "0 < block_size net" by simp
  have b: "str_address (address_class ?v (ip_int (network_address net) + block_size net - 1)) =
      Inr (address_text (address_class ?v (ip_int (network_address net) + block_size net - 1)))"
    using le pos by (intro str_address_class_ok) linarith
  have h: "str_address (address_class ?v (block_size net - 1)) =
      Inr (address_text (address_class ?v (block_size net - 1)))"
    using le pos by (intro str_address_class_ok) linarith
  from ok have "ip_int (netmask net) \<le> ALL_ONES ?v"
    by (simp add: network_ok_def ip_int_from_prefix_le)
  then have "ip_int (netmask net) < 2 ^ max_prefixlen ?v"
    by (simp add: ALL_ONES_def) (metis Suc_pred le_imp_less_Suc zero_less_numeral zero_less_power)
  moreover from ok have "address_family (netmask net) = ?v"
    by (simp add: network_ok_def)
  ultimately have m: "str_address (netmask net) = Inr (address_text (netmask net))"
    by (intro str_address_ok) simp
  from b h show ?thesis
    unfolding calculate_network_info_def
    by (cases ?v)
      (simp_all add: assms except_ValueError_def str_network_address_ok [OF ok]
        broadcast_address_ok [OF ok] hostmask_ok [OF ok] num_addresses_ok [OF ok]
        usable_hosts_ok [OF ok] first_usable_ok [OF ok] last_usable_ok [OF ok] m)
qed

lemma calculate_network_info_invalid:
  assumes "ip_network cidr = Inl e"
  shows "calculate_network_info cidr = Inr []"
proof -
  from assms have "is_ValueError e"
    by (auto dest: ip_network_error)
  with assms show ?thesis
    by (simp add: calculate_network_info_def except_ValueError_def)
qed

lemma validate_cidr_eq:
  "validate_cidr cidr = Inr (case ip_network cidr of Inr net \<Rightarrow> True | Inl e \<Rightarrow> False)"
proof (cases "ip_network cidr")
  case (Inl e)
  then have "is_ValueError e"
    by (auto dest: ip_network_error)
  with Inl show ?thesis
    by (simp add: validate_cidr_def except_ValueError_def)
next
  case (Inr net)
  then show ?thesis
    by (simp add: validate_cidr_def except_ValueError_def)
qed

lemma host_addresses_ascending:
  assumes "network_ok net"
  shows "sorted_wrt (\<lambda>a b. ip_int a < ip_int b) (host_addresses net)"
  using assms
proof (cases rule: host_addresses_cases)
  case full
  then show ?thesis by simp
next
  case p2p
  then show ?thesis by simp
next
  case v4
  then show ?thesis by (simp add: sorted_wrt_map)
next
  case v6
  then show ?thesis by (simp add: sorted_wrt_map)
qed

lemma collect_all_Inr:
  assumes "\<forall>u \<in> set us. \<exists>a. f u = Inr a"
  shows "\<exists>xs. collect (map f us) = Inr xs \<and> Inr ` set xs = f ` set us"
  using assms
proof (induction us)
  case Nil
  then show ?case by simp
next
  case (Cons u us)
  then obtain xs where xs: "collect (map f us) = Inr xs" "Inr ` set xs = f ` set us"
    by auto
  from Cons.prems obtain a where "f u = Inr a" by auto
  with xs show ?case by auto
qed

lemma get_available_ip_same_values:
  assumes "ip_address ` set used1 = ip_address ` set used2"
  shows "get_available_ip cidr used1 = get_available_ip cidr used2"
proof (cases "\<forall>u \<in> set used1. \<exists>a. ip_address u = Inr a")
  case False
  then obtain u e where u: "u \<in> set used1" "ip_address u = Inl e"
    by (metis sum.exhaust)
  then have "Inl e \<in> ip_address ` set used2"
    using assms by (metis image_eqI)
  then obtain u' where u': "u' \<in> set used2" "ip_address u' = Inl e"
    by auto
  from u u' show ?thesis
    by (simp add: get_available_ip_invalid_used)
next
  case True
  then have "\<forall>u \<in> set used2. \<exists>a. ip_address u = Inr a"
    using assms by (metis image_iff)
  with True obtain xs ys where xs: "collect (map ip_address used1) = Inr xs"
    "Inr ` set xs = ip_address ` set used1"
    and ys: "collect (map ip_address used2) = Inr ys" "Inr ` set ys = ip_address ` set used2"
    using collect_all_Inr by meson
  with assms have "(Inr ` set xs :: (error + ip_address) set) = Inr ` set ys" by simp
  then have eq: "set xs = set ys"
    by (simp add: inj_image_eq_iff)
  show ?thesis
  proof (cases "ip_network cidr")
    case (Inl e)
    then show ?thesis
      by (simp add: get_available_ip_invalid_block)
  next
    case (Inr net)
    with xs ys eq show ?thesis
      by (simp add: get_available_ip_ok)
  qed
qed

subsection \<open>Subdividing a network\<close>

lemma range_count:
  fixes s K :: nat
  assumes "0 < s"
  shows "(s * K + s - 1) div s = K"
proof -
  have "s * K + s - 1 = (s - 1) + K * s"
    using assms by (simp add: mult.commute)
  also have "\<dots> div s = K + (s - 1) div s"
    using assms by (simp only: div_mult_self1) 
  also have "(s - 1) div s = 0"
    using assms by simp
  finally show ?thesis by simp
qed

lemma make_netmask_MaskInt:
  assumes "n \<le> max_prefixlen v"
  shows "make_netmask v (MaskInt (int n)) = Inr (address_class v (ip_int_from_prefix v n), n)"
proof -
  from assms have "ip_int_from_prefix v n \<le> ALL_ONES v"
    by (rule ip_int_from_prefix_le)
  with assms show ?thesis
    by (simp add: make_netmask_def make_netmask_prefixlen_def address_from_int_def)
qed

lemma Network_from_pair_ok:
  assumes "n \<le> max_prefixlen v" and "a < 2 ^ max_prefixlen v" and "2 ^ (max_prefixlen v - n) dvd a"
  shows "Network_from_pair v a (int n) =
         Inr \<lparr>net_family = v, network_address = address_class v a,
              netmask = address_class v (ip_int_from_prefix v n), prefixlen = n\<rparr>"
proof -
  from assms have "a AND ip_int_from_prefix v n = a"
    by (simp add: and_netmask_iff)
  with assms show ?thesis
    by (simp add: Network_from_pair_def address_from_int_Inr make_netmask_MaskInt
        check_host_bits_def)
qed

lemma subnets_ok:
  assumes ok: "network_ok net"
    and lt: "prefixlen net < max_prefixlen (net_family net)"
    and n: "prefixlen net \<le> n" "n \<le> max_prefixlen (net_family net)"
  shows "subnets net (int n) = Inr (subnet_blocks net n)"
proof -
  let ?v = "net_family net" and ?a = "ip_int (network_address net)"
  let ?M = "max_prefixlen ?v" and ?p = "prefixlen net"
  let ?s = "(2::nat) ^ (?M - n)" and ?K = "(2::nat) ^ (n - ?p)"
  have bs: "block_size net = ?s * ?K"
    using n by (simp add: block_size_def power_add [symmetric])
  have pos: "0 < block_size net" by simp
  have le: "?a + block_size net \<le> 2 ^ ?M"
    using ok by (rule network_ok_last_le)
  from ok have dvd: "block_size net dvd ?a"
    by (simp add: network_ok_def)
  have b: "broadcast_address net = Inr (address_class ?v (?a + block_size net - 1))"
    using ok by (rule broadcast_address_ok)
  have h: "hostmask net = Inr (address_class ?v (block_size net - 1))"
    using ok by (rule hostmask_ok)
  have step: "drop_bit (nat (int n - int ?p)) (block_size net - 1 + 1) = ?s"
  proof -
    have "nat (int n - int ?p) = n - ?p" by simp
    moreover have "block_size net - 1 + 1 = 2 ^ (?M - ?p)"
      by (simp add: block_size_def)
    moreover have "?M - ?p - (n - ?p) = ?M - n"
      using n by simp
    moreover have "n - ?p \<le> ?M - ?p"
      using n by simp
    ultimately show ?thesis
      by (simp add: drop_bit_exp_eq)
  qed
  have stop: "?a + block_size net - 1 + 1 - ?a = block_size net"
    using pos by simp
  have r: "py_range ?a (?a + block_size net - 1 + 1) ?s =
           Inr (map (\<lambda>i. ?a + ?s * i) [0 ..< ?K])"
  proof -
    have cnt: "(?s * ?K + ?s - 1) div ?s = ?K"
      by (rule range_count) simp
    have e: "?a + block_size net - 1 + 1 - ?a + ?s - 1 = ?s * ?K + ?s - 1"
      by (metis stop bs)
    have nz: "?s \<noteq> 0" by simp
    show ?thesis
      by (simp only: py_range_def e cnt nz if_False)
  qed
  have each: "Network_from_pair ?v (?a + ?s * i) (int n) =
      Inr \<lparr>net_family = ?v, network_address = address_class ?v (?a + i * ?s),
           netmask = address_class ?v (ip_int_from_prefix ?v n), prefixlen = n\<rparr>"
    if "i < ?K" for i
  proof -
    from that have "Suc i \<le> ?K" by simp
    then have "?s * Suc i \<le> ?s * ?K"
      by (rule mult_le_mono2)
    then have "?s * i + ?s \<le> ?s * ?K" by simp
    moreover have "0 < ?s" by simp
    moreover from le bs have "?a + ?s * ?K \<le> 2 ^ ?M" by simp
    ultimately have "?a + ?s * i < 2 ^ ?M" by linarith
    moreover from dvd bs have "?s dvd ?a"
      by (metis dvd_mult_left)
    then have "?s dvd ?a + ?s * i" by simp
    ultimately show ?thesis
      using n(2) by (simp add: Network_from_pair_ok mult.commute)
  qed
  have "map (\<lambda>new_addr. Network_from_pair ?v new_addr (int n)) (map (\<lambda>i. ?a + ?s * i) [0 ..< ?K]) =
        map Inr (map (\<lambda>k. \<lparr>net_family = ?v, network_address = address_class ?v (?a + k * ?s),
           netmask = address_class ?v (ip_int_from_prefix ?v n), prefixlen = n\<rparr>) [0 ..< ?K])"
    using each by simp
  moreover have "subnet_blocks net n =
        map (\<lambda>k. \<lparr>net_family = ?v, network_address = address_class ?v (?a + k * ?s),
           netmask = address_class ?v (ip_int_from_prefix ?v n), prefixlen = n\<rparr>) [0 ..< ?K]"
    using lt by (simp add: subnet_blocks_def Let_def)
  ultimately have c: "collect (map (\<lambda>new_addr. Network_from_pair ?v new_addr (int n))
                  (map (\<lambda>i. ?a + ?s * i) [0 ..< ?K])) = Inr (subnet_blocks net n)"
    by (simp only: collect_map_Inr)
  from lt n have cond: "?p \<noteq> ?M" "\<not> int n < int ?p" "\<not> int ?M < int n"
    by simp_all
  show ?thesis
    unfolding subnets_def Let_def
    using cond by (simp add: b h step [simplified] r [simplified] c [simplified])
qed

subsection \<open>generate_subnets\<close>

lemma subnet_blocks_ok:
  assumes ok: "network_ok net"
    and n: "prefixlen net \<le> n" "n \<le> max_prefixlen (net_family net)"
    and b: "b \<in> set (subnet_blocks net n)"
  shows "network_ok b \<and> net_family b = net_family net"
proof (cases "prefixlen net = max_prefixlen (net_family net)")
  case True
  with b ok show ?thesis
    by (simp add: subnet_blocks_def)
next
  case False
  let ?v = "net_family net" and ?a = "ip_int (network_address net)"
  let ?M = "max_prefixlen ?v" and ?p = "prefixlen net"
  let ?s = "(2::nat) ^ (?M - n)" and ?K = "(2::nat) ^ (n - ?p)"
  from False b obtain k where k: "k < ?K"
    and b': "b = \<lparr>net_family = ?v, network_address = address_class ?v (?a + k * ?s),
           netmask = address_class ?v (ip_int_from_prefix ?v n), prefixlen = n\<rparr>"
    by (auto simp: subnet_blocks_def Let_def)
  have bs: "block_size net = ?s * ?K"
    using n by (simp add: block_size_def power_add [symmetric])
  have le: "?a + block_size net \<le> 2 ^ ?M"
    using ok by (rule network_ok_last_le)
  from ok have dvd: "block_size net dvd ?a"
    by (simp add: network_ok_def)
  from k have "Suc k \<le> ?K" by simp
  then have "?s * Suc k \<le> ?s * ?K"
    by (rule mult_le_mono2)
  then have "k * ?s + ?s \<le> ?s * ?K" by (simp add: mult.commute)
  moreover have "0 < ?s" by simp
  moreover from le bs have "?a + ?s * ?K \<le> 2 ^ ?M" by simp
  ultimately have lt: "?a + k * ?s < 2 ^ ?M" by linarith
  from dvd bs have "?s dvd ?a"
    by (metis dvd_mult_left)
  then have "?s dvd ?a + k * ?s" by simp
  with lt n(2) show ?thesis
    unfolding b' by (simp add: network_ok_def block_size_def)
qed

lemma collect_str_network:
  assumes "\<forall>b \<in> set bs. network_ok b"
  shows "collect (map str_network bs) = Inr (map network_text bs)"
  using assms by (induction bs) (simp_all add: str_network_ok)

lemma set_slice_to: "set (slice_to count xs) \<subseteq> set xs"
  by (auto simp: slice_to_def dest: in_set_takeD)

lemma subnets_full:
  assumes "prefixlen net = max_prefixlen (net_family net)"
  shows "subnets net new_prefix = Inr (subnet_blocks net n)"
  using assms by (simp add: subnets_def subnet_blocks_def)

lemma generate_subnets_ok:
  assumes net: "ip_network parent_cidr = Inr net"
    and n: "prefixlen net = max_prefixlen (net_family net) \<or>
            int (prefixlen net) \<le> new_prefix \<and> new_prefix \<le> int (max_prefixlen (net_family net))"
  shows "generate_subnets parent_cidr new_prefix count =
         Inr (map network_text (slice_to count (subnet_blocks net (nat new_prefix))))"
proof -
  from net have ok: "network_ok net" by (rule ip_network_Inr)
  have s: "subnets net new_prefix = Inr (subnet_blocks net (nat new_prefix))"
  proof (cases "prefixlen net = max_prefixlen (net_family net)")
    case True
    then show ?thesis by (rule subnets_full)
  next
    case False
    from ok have "prefixlen net \<le> max_prefixlen (net_family net)"
      by (simp add: network_ok_def)
    with n False have "prefixlen net < max_prefixlen (net_family net)"
      and "prefixlen net \<le> nat new_prefix" and "nat new_prefix \<le> max_prefixlen (net_family net)"
      by linarith+
    with ok have "subnets net (int (nat new_prefix)) = Inr (subnet_blocks net (nat new_prefix))"
      by (rule subnets_ok)
    moreover from n False have "int (nat new_prefix) = new_prefix" by simp
    ultimately show ?thesis by simp
  qed
  have "\<forall>b \<in> set (subnet_blocks net (nat new_prefix)). network_ok b"
  proof (cases "prefixlen net = max_prefixlen (net_family net)")
    case True
    with ok show ?thesis by (simp add: subnet_blocks_def)
  next
    case False
    with n have "prefixlen net \<le> nat new_prefix" "nat new_prefix \<le> max_prefixlen (net_family net)"
      by linarith+
    with ok show ?thesis
      using subnet_blocks_ok [of net "nat new_prefix"] by simp
  qed
  moreover have "set (slice_to count (subnet_blocks net (nat new_prefix))) \<subseteq>
      set (subnet_blocks net (nat new_prefix))"
    by (rule set_slice_to)
  ultimately have "\<forall>b \<in> set (slice_to count (subnet_blocks net (nat new_prefix))). network_ok b"
    by (simp only: subset_eq) blast
  then have "collect (map str_network (slice_to count (subnet_blocks net (nat new_prefix)))) =
      Inr (map network_text (slice_to count (subnet_blocks net (nat new_prefix))))"
    by (rule collect_str_network)
  then show ?thesis
    unfolding generate_subnets_def by (simp only: net s bind_Inr sum.case)
qed

lemma generate_subnets_invalid_parent:
  assumes "ip_network parent_cidr = Inl e"
  shows "generate_subnets parent_cidr new_prefix count =
         Inl (ValueError (ErrorGeneratingSubnets (str_error e)))"
proof -
  from assms have "is_ValueError e"
    by (auto dest: ip_network_error)
  with assms show ?thesis
    by (simp add: generate_subnets_def)
qed

lemma generate_subnets_shorter:
  assumes "ip_network parent_cidr = Inr net"
    and "prefixlen net < max_prefixlen (net_family net)"
    and "new_prefix < int (prefixlen net)"
  shows "generate_subnets parent_cidr new_prefix count =
         Inl (ValueError (ErrorGeneratingSubnets NewPrefixMustBeLonger))"
  using assms by (simp add: generate_subnets_def subnets_def)

lemma generate_subnets_longer:
  assumes "ip_network parent_cidr = Inr net"
    and "prefixlen net < max_prefixlen (net_family net)"
    and "int (max_prefixlen (net_family net)) < new_prefix"
  shows "generate_subnets parent_cidr new_prefix count =
         Inl (ValueError (ErrorGeneratingSubnets (PrefixLengthDiffInvalid new_prefix)))"
  using assms by (simp add: generate_subnets_def subnets_def Let_def)

lemma subnet_blocks_length:
  "length (subnet_blocks net n) = 2 ^ (n - prefixlen net) \<or>
   prefixlen net = max_prefixlen (net_family net) \<and> length (subnet_blocks net n) = 1"
  by (simp add: subnet_blocks_def Let_def)

lemma subnet_blocks_ascending:
  "sorted_wrt (\<lambda>a b. ip_int (network_address a) < ip_int (network_address b))
     (subnet_blocks net n)"
  by (simp add: subnet_blocks_def Let_def sorted_wrt_map)

lemma subnet_blocks_prefixlen:
  assumes "prefixlen net = max_prefixlen (net_family net) \<longrightarrow> n = prefixlen net"
    and "b \<in> set (subnet_blocks net n)"
  shows "prefixlen b = n"
  using assms by (auto simp: subnet_blocks_def Let_def split: if_splits)

lemma subnet_blocks_within:
  assumes ok: "network_ok net"
    and n: "prefixlen net \<le> n" "n \<le> max_prefixlen (net_family net)"
    and b: "b \<in> set (subnet_blocks net n)"
  shows "ip_int (network_address net) \<le> ip_int (network_address b) \<and>
         ip_int (network_address b) + block_size b \<le> ip_int (network_address net) + block_size net"
proof (cases "prefixlen net = max_prefixlen (net_family net)")
  case True
  with b show ?thesis
    by (simp add: subnet_blocks_def)
next
  case False
  let ?v = "net_family net" and ?a = "ip_int (network_address net)"
  let ?M = "max_prefixlen ?v" and ?p = "prefixlen net"
  let ?s = "(2::nat) ^ (?M - n)" and ?K = "(2::nat) ^ (n - ?p)"
  from False b obtain k where k: "k < ?K"
    and b': "b = \<lparr>net_family = ?v, network_address = address_class ?v (?a + k * ?s),
           netmask = address_class ?v (ip_int_from_prefix ?v n), prefixlen = n\<rparr>"
    by (auto simp: subnet_blocks_def Let_def)
  have bs: "block_size net = ?s * ?K"
    using n by (simp add: block_size_def power_add [symmetric])
  from k have "Suc k \<le> ?K" by simp
  then have "?s * Suc k \<le> ?s * ?K"
    by (rule mult_le_mono2)
  then have "k * ?s + ?s \<le> ?s * ?K" by (simp add: mult.commute)
  then show ?thesis
    unfolding b' bs by (simp add: block_size_def)
qed

section \<open>The claims\<close>

text \<open>
  C10 (implicit). For every valid block, if any single entry of the list of used
  addresses fails to parse as an IP address, \<open>get_available_ip\<close> returns none for the
  whole call, whether or not the block still has unused hosts: the set comprehension
  over \<open>used_ips\<close> raises \<open>ValueError\<close> before the loop over the hosts starts, and the
  handler turns it into \<open>None\<close>.
\<close>

theorem get_available_ip_malformed_used_entry:
  assumes "ip_network subnet_cidr = Inr subnet"
    and "u \<in> set used_ips"
    and "ip_address u = Inl e"
  shows "get_available_ip subnet_cidr used_ips = Inr None"
  using assms(2,3) by (rule get_available_ip_invalid_used)

theorem get_available_ip_malformed_used_entry_witness:
  "ip_network ''192.168.1.0/30'' =
     Inr \<lparr>net_family = V4, network_address = IPv4Address 3232235776,
          netmask = IPv4Address 4294967292, prefixlen = 30\<rparr> \<and>
   ''bogus'' \<in> set [''192.168.1.1'', ''bogus''] \<and>
   ip_address ''bogus'' = Inl (ValueError NotAnAddress) \<and>
   get_available_ip ''192.168.1.0/30'' [''192.168.1.1'', ''bogus''] = Inr None"
proof -
  have net: "ip_network ''192.168.1.0/30'' =
     Inr \<lparr>net_family = V4, network_address = IPv4Address 3232235776,
          netmask = IPv4Address 4294967292, prefixlen = 30\<rparr>"
    by (simp add: py_defs address_defs network_defs)
  have mem: "''bogus'' \<in> set [''192.168.1.1'', ''bogus'']"
    by simp
  have bad: "ip_address ''bogus'' = Inl (ValueError NotAnAddress)"
    by (simp add: py_defs address_defs)
  from get_available_ip_malformed_used_entry [OF net mem bad] net mem bad
  show ?thesis by simp
qed

text \<open>
  C6. The claim: \<open>is_subnet_of\<close> returns false on a pair of blocks of different IP
  versions, and no call lets an exception escape. The code: \<open>subnet_of\<close> raises
  \<open>TypeError\<close> when the versions differ, and the handler of \<open>is_subnet_of\<close> catches
  \<open>ValueError\<close> only. Both texts below are valid blocks; the call raises.
\<close>

theorem is_subnet_of_mixed_versions:
  "validate_cidr ''10.0.0.0/8'' = Inr True \<and>
   validate_cidr ''::/0'' = Inr True \<and>
   is_subnet_of ''10.0.0.0/8'' ''::/0'' = Inl TypeError"
proof -
  have p: "ip_network ''10.0.0.0/8'' =
     Inr \<lparr>net_family = V4, network_address = IPv4Address 167772160,
          netmask = IPv4Address 4278190080, prefixlen = 8\<rparr>"
    by (simp add: py_defs address_defs network_defs)
  have c: "ip_network ''::/0'' =
     Inr \<lparr>net_family = V6, network_address = IPv6Address 0 None,
          netmask = IPv6Address 0 None, prefixlen = 0\<rparr>"
    by (simp add: py_defs address_defs network_defs)
  show ?thesis
    by (simp add: validate_cidr_def is_subnet_of_def subnet_of_def except_ValueError_def p c)
qed




text \<open>
  C8. \<open>calculate_network_info("192.168.1.0/24")\<close> returns network address
  192.168.1.0, broadcast address 192.168.1.255, prefix length 24, 256 addresses, 254
  usable hosts, first usable host 192.168.1.1 and last usable host 192.168.1.254 (and
  the two masks); on every string that fails validation it returns the empty
  dictionary and raises nothing.
\<close>

theorem calculate_network_info_example:
  "calculate_network_info ''192.168.1.0/24'' =
     Inr [(''network_address'', PyStr ''192.168.1.0''),
          (''broadcast_address'', PyStr ''192.168.1.255''),
          (''netmask'', PyStr ''255.255.255.0''),
          (''hostmask'', PyStr ''0.0.0.255''),
          (''prefixlen'', PyInt 24),
          (''num_addresses'', PyInt 256),
          (''usable_hosts'', PyInt 254),
          (''first_usable'', PyStr ''192.168.1.1''),
          (''last_usable'', PyStr ''192.168.1.254'')] \<and>
   (validate_cidr cidr = Inr False \<longrightarrow> calculate_network_info cidr = Inr [])"
proof
  have net: "ip_network ''192.168.1.0/24'' =
     Inr \<lparr>net_family = V4, network_address = IPv4Address 3232235776,
          netmask = IPv4Address 4294967040, prefixlen = 24\<rparr>"
    by (simp add: py_defs address_defs network_defs)
  show "calculate_network_info ''192.168.1.0/24'' =
     Inr [(''network_address'', PyStr ''192.168.1.0''),
          (''broadcast_address'', PyStr ''192.168.1.255''),
          (''netmask'', PyStr ''255.255.255.0''),
          (''hostmask'', PyStr ''0.0.0.255''),
          (''prefixlen'', PyInt 24),
          (''num_addresses'', PyInt 256),
          (''usable_hosts'', PyInt 254),
          (''first_usable'', PyStr ''192.168.1.1''),
          (''last_usable'', PyStr ''192.168.1.254'')]"
    unfolding calculate_network_info_ok [OF net]
    by (simp add: block_size_def host_addresses_def address_text_def py_defs address_defs)
  show "validate_cidr cidr = Inr False \<longrightarrow> calculate_network_info cidr = Inr []"
    by (cases "ip_network cidr") (simp_all add: validate_cidr_eq calculate_network_info_invalid)
qed

theorem calculate_network_info_example_witness:
  "validate_cidr ''not-a-cidr'' = Inr False \<and> calculate_network_info ''not-a-cidr'' = Inr []"
proof -
  have "ip_network ''not-a-cidr'' = Inl (ValueError NotANetwork)"
    by (simp add: py_defs address_defs network_defs)
  then have "validate_cidr ''not-a-cidr'' = Inr False"
    by (simp add: validate_cidr_eq)
  with calculate_network_info_example [of "''not-a-cidr''"] show ?thesis
    by simp
qed




text \<open>
  C5. The claim: the usable-host count is the number of addresses minus 2 for IPv4
  blocks of prefix length below 31, and the number of addresses for IPv4 /31 and /32
  blocks and for IPv6 blocks. The code subtracts 2 for every IPv4 block: a /31 block of
  2 addresses is reported with 0 usable hosts and a /32 block of 1 address with \<open>-1\<close>,
  next to a first and a last usable host taken from a list of 2 hosts and of 1 host.
\<close>

theorem calculate_network_info_usable_hosts_point_to_point:
  "calculate_network_info ''10.0.0.4/31'' =
     Inr [(''network_address'', PyStr ''10.0.0.4''),
          (''broadcast_address'', PyStr ''10.0.0.5''),
          (''netmask'', PyStr ''255.255.255.254''),
          (''hostmask'', PyStr ''0.0.0.1''),
          (''prefixlen'', PyInt 31),
          (''num_addresses'', PyInt 2),
          (''usable_hosts'', PyInt 0),
          (''first_usable'', PyStr ''10.0.0.4''),
          (''last_usable'', PyStr ''10.0.0.5'')] \<and>
   calculate_network_info ''10.0.0.5/32'' =
     Inr [(''network_address'', PyStr ''10.0.0.5''),
          (''broadcast_address'', PyStr ''10.0.0.5''),
          (''netmask'', PyStr ''255.255.255.255''),
          (''hostmask'', PyStr ''0.0.0.0''),
          (''prefixlen'', PyInt 32),
          (''num_addresses'', PyInt 1),
          (''usable_hosts'', PyInt (- 1)),
          (''first_usable'', PyStr ''10.0.0.5''),
          (''last_usable'', PyStr ''10.0.0.5'')]"
proof -
  have a: "ip_network ''10.0.0.4/31'' =
     Inr \<lparr>net_family = V4, network_address = IPv4Address 167772164,
          netmask = IPv4Address 4294967294, prefixlen = 31\<rparr>"
    by (simp add: py_defs address_defs network_defs)
  have b: "ip_network ''10.0.0.5/32'' =
     Inr \<lparr>net_family = V4, network_address = IPv4Address 167772165,
          netmask = IPv4Address 4294967295, prefixlen = 32\<rparr>"
    by (simp add: py_defs address_defs network_defs)
  show ?thesis
    unfolding calculate_network_info_ok [OF a] calculate_network_info_ok [OF b]
    by (simp add: block_size_def host_addresses_def address_text_def py_defs address_defs)
qed

text \<open>
  C9. The claim: \<open>get_available_ip\<close> compares the used entries by numeric value and
  not as strings, so that \<open>"010.000.000.001"\<close> excludes the same host as
  \<open>"10.0.0.1"\<close>. The code parses every entry with \<open>ipaddress.ip_address\<close>, which
  rejects an IPv4 octet with a leading zero; the exception ends the call with \<open>None\<close>.

  As amended: the result depends on the used entries only through the values that
  \<open>ip_address\<close> gives them, so two spellings that parse to the same address exclude the
  same host. A spelling with leading zeros in an IPv4 octet such as
  \<open>"010.000.000.001"\<close> does not parse, and with such an entry in the list the call
  returns none.
\<close>

theorem get_available_ip_compares_parsed_values:
  "(ip_address ` set used1 = ip_address ` set used2 \<longrightarrow>
      get_available_ip cidr used1 = get_available_ip cidr used2) \<and>
   ip_address ''010.000.000.001'' = Inl (ValueError NotAnAddress) \<and>
   (''010.000.000.001'' \<in> set used \<longrightarrow> get_available_ip cidr used = Inr None)"
proof (intro conjI impI)
  assume "ip_address ` set used1 = ip_address ` set used2"
  then show "get_available_ip cidr used1 = get_available_ip cidr used2"
    by (rule get_available_ip_same_values)
next
  show bad: "ip_address ''010.000.000.001'' = Inl (ValueError NotAnAddress)"
    by (simp add: py_defs address_defs)
  assume "''010.000.000.001'' \<in> set used"
  from this bad show "get_available_ip cidr used = Inr None"
    by (rule get_available_ip_invalid_used)
qed

theorem get_available_ip_compares_parsed_values_witness:
  "ip_address ` set [''::1''] = ip_address ` set [''0:0:0:0:0:0:0:1''] \<and>
   get_available_ip ''::/126'' [''::1''] = Inr (Some ''::2'') \<and>
   get_available_ip ''::/126'' [''0:0:0:0:0:0:0:1''] = Inr (Some ''::2'') \<and>
   ''010.000.000.001'' \<in> set [''192.168.0.2'', ''010.000.000.001''] \<and>
   get_available_ip ''192.168.0.0/29'' [''192.168.0.2'', ''010.000.000.001''] = Inr None"
proof -
  have a: "ip_address ''::1'' = Inr (IPv6Address 1 None)"
    by (simp add: py_defs address_defs)
  have b: "ip_address ''0:0:0:0:0:0:0:1'' = Inr (IPv6Address 1 None)"
    by (simp add: py_defs address_defs)
  have eq: "ip_address ` set [''::1''] = ip_address ` set [''0:0:0:0:0:0:0:1'']"
    by (simp add: a b)
  have net: "ip_network ''::/126'' =
     Inr \<lparr>net_family = V6, network_address = IPv6Address 0 None,
          netmask = IPv6Address 340282366920938463463374607431768211452 None,
          prefixlen = 126\<rparr>"
    by (simp add: py_defs address_defs network_defs)
  have "collect (map ip_address [''::1'']) = Inr [IPv6Address 1 None]"
    by (simp add: a)
  from get_available_ip_ok [OF net this]
  have 1: "get_available_ip ''::/126'' [''::1''] = Inr (Some ''::2'')"
    by (simp add: host_addresses_def block_size_def address_text_def py_defs address_defs)
  have 2: "get_available_ip ''::/126'' [''0:0:0:0:0:0:0:1''] = Inr (Some ''::2'')"
    using get_available_ip_compares_parsed_values
      [of "[''::1'']" "[''0:0:0:0:0:0:0:1'']" "''::/126''"] eq 1
    by simp
  have mem: "''010.000.000.001'' \<in> set [''192.168.0.2'', ''010.000.000.001'']"
    by simp
  have 3: "get_available_ip ''192.168.0.0/29'' [''192.168.0.2'', ''010.000.000.001''] = Inr None"
    using get_available_ip_compares_parsed_values
      [of _ _ "''192.168.0.0/29''" "[''192.168.0.2'', ''010.000.000.001'']"] mem
    by blast
  from eq 1 2 mem 3 show ?thesis by blast
qed

theorem get_available_ip_leading_zeros_counterexample:
  "get_available_ip ''10.0.0.0/30'' [''010.000.000.001''] = Inr None \<and>
   get_available_ip ''10.0.0.0/30'' [''10.0.0.1''] = Inr (Some ''10.0.0.2'')"
proof -
  have net: "ip_network ''10.0.0.0/30'' =
     Inr \<lparr>net_family = V4, network_address = IPv4Address 167772160,
          netmask = IPv4Address 4294967292, prefixlen = 30\<rparr>"
    by (simp add: py_defs address_defs network_defs)
  have bad: "ip_address ''010.000.000.001'' = Inl (ValueError NotAnAddress)"
    by (simp add: py_defs address_defs)
  have "''010.000.000.001'' \<in> set [''010.000.000.001'']" by simp
  from this bad have 1: "get_available_ip ''10.0.0.0/30'' [''010.000.000.001''] = Inr None"
    by (rule get_available_ip_invalid_used)
  have "collect (map ip_address [''10.0.0.1'']) = Inr [IPv4Address 167772161]"
    by (simp add: py_defs address_defs)
  from get_available_ip_ok [OF net this]
  have 2: "get_available_ip ''10.0.0.0/30'' [''10.0.0.1''] = Inr (Some ''10.0.0.2'')"
    by (simp add: host_addresses_def block_size_def address_text_def py_defs address_defs)
  from 1 2 show ?thesis by simp
qed






end
